theory Spec2Isabelle
  imports Main
begin

section \<open>Python strings\<close>

text \<open>
  A Python \<open>str\<close> is a sequence of Unicode code points, so it is modelled as a list of
  naturals, one per code point. ASCII literals of the source are written with \<open>ascii\<close>;
  the Chinese literals are written out as code points, with the source text they stand
  for described beside them.
\<close>

type_synonym pystr = "nat list"

definition ascii :: "string \<Rightarrow> pystr" where
  "ascii s = map of_char s"

text \<open>
  \<open>str.isspace\<close> for one code point: the code points CPython classifies as whitespace.
\<close>

definition py_isspace :: "nat \<Rightarrow> bool" where
  "py_isspace c =
     ((0x09 \<le> c \<and> c \<le> 0x0D) \<or> (0x1C \<le> c \<and> c \<le> 0x20) \<or> c = 0x85 \<or> c = 0xA0
      \<or> c = 0x1680 \<or> (0x2000 \<le> c \<and> c \<le> 0x200A) \<or> c = 0x2028 \<or> c = 0x2029
      \<or> c = 0x202F \<or> c = 0x205F \<or> c = 0x3000)"

text \<open>\<open>s.strip()\<close>: leading and trailing whitespace removed.\<close>

definition py_strip :: "pystr \<Rightarrow> pystr" where
  "py_strip s = rev (dropWhile py_isspace (rev (dropWhile py_isspace s)))"

text \<open>\<open>s.replace(old, new)\<close> for \<open>old\<close> and \<open>new\<close> of one character each.\<close>

definition replace_char :: "nat \<Rightarrow> nat \<Rightarrow> pystr \<Rightarrow> pystr" where
  "replace_char old new s = map (\<lambda>c. if c = old then new else c) s"

text \<open>\<open>sep.join(parts)\<close>.\<close>

fun py_join :: "pystr \<Rightarrow> pystr list \<Rightarrow> pystr" where
  "py_join sep [] = []"
| "py_join sep [x] = x"
| "py_join sep (x # y # ys) = x @ sep @ py_join sep (y # ys)"

text \<open>\<open>str(n)\<close> for an integer: its decimal digits, with a minus sign when negative.\<close>

fun str_nat :: "nat \<Rightarrow> pystr" where
  "str_nat n = (if n < 10 then [0x30 + n] else str_nat (n div 10) @ [0x30 + n mod 10])"

declare str_nat.simps [simp del]

definition str_int :: "int \<Rightarrow> pystr" where
  "str_int i = (if i < 0 then 0x2D # str_nat (nat (- i)) else str_nat (nat i))"


section \<open>Exceptions\<close>

text \<open>
  The exceptions the two source files raise, catch or let through.
  \<^item> \<open>NotInitialized\<close>: the \<open>ValueError\<close> that \<open>query_programs\<close> raises itself.
  \<^item> \<open>NoSuchCollection\<close>, \<open>CollectionExists\<close>: what the store client raises for a
    collection name that is absent (on delete) or already taken (on create).
  \<^item> \<open>BackendError\<close>: any other subclass of \<open>Exception\<close> coming out of the embedding
    function or the persistence layer, with its message.
  \<^item> \<open>Interrupt\<close>: \<open>KeyboardInterrupt\<close> or \<open>SystemExit\<close>, which derive from
    \<open>BaseException\<close> only: a bare \<open>except:\<close> catches them, \<open>except Exception\<close> does not.
  \<^item> \<open>JSONDecodeError\<close>, \<open>TypeError\<close>, \<open>AttributeError\<close>: the three classes named by the
    handler of \<open>process_admission_data\<close>.
  \<^item> \<open>IntValueError\<close>: the \<open>ValueError\<close> of \<open>int()\<close> on a string that is no integer
    literal.
  \<^item> \<open>RecursionError\<close>: the interpreter's recursion limit was reached.
  \<^item> \<open>DigitLimitError\<close>: the \<open>ValueError\<close> of converting an integer literal that has
    more digits than the interpreter allows.
\<close>

datatype exn =
    NotInitialized
  | NoSuchCollection pystr
  | CollectionExists pystr
  | BackendError pystr
  | Interrupt
  | JSONDecodeError
  | TypeError
  | AttributeError
  | IntValueError pystr
  | RecursionError
  | DigitLimitError

fun is_Exception :: "exn \<Rightarrow> bool" where
  "is_Exception Interrupt = False"
| "is_Exception _ = True"

section \<open>The Python runtime\<close>

text \<open>
  Values that \<open>json.loads\<close> builds. A dictionary is the list of its keys and values in
  insertion order, every key once. A float is kept as the number's text in the input.
\<close>

datatype json =
    JNull
  | JBool bool
  | JInt int
  | JFloat pystr
  | JStr pystr
  | JList "json list"
  | JDict "(pystr \<times> json) list"

text \<open>
  What the source takes from the interpreter and its standard library, as parameters:
  \<^item> \<open>loads\<close>: \<open>json.loads\<close>: the value it returns, or the exception it raises. That
    is \<open>JSONDecodeError\<close> for a text that is not JSON, and it can be another one: the
    interpreter raises \<open>RecursionError\<close> inside the reader on a deeply nested text, and a
    \<open>ValueError\<close> on an integer literal with more digits than it allows.
  \<^item> \<open>str_other\<close>: \<open>str()\<close> of a float, a list or a dictionary, which goes through
    \<open>repr\<close>.
  \<^item> \<open>float_truth\<close>: whether a float, given by its text, is not zero.
  \<^item> \<open>is_digit\<close>: \<open>str.isdigit\<close> for one code point (Unicode numeric type Digit or
    Decimal).
  \<^item> \<open>decimal_value\<close>: the value of a code point that is a decimal digit (Unicode
    category Nd), the only digits \<open>int()\<close> accepts.
\<close>

record pylib =
  loads :: "pystr \<Rightarrow> exn + json"
  str_other :: "json \<Rightarrow> pystr"
  float_truth :: "pystr \<Rightarrow> bool"
  is_digit :: "nat \<Rightarrow> bool"
  decimal_value :: "nat \<Rightarrow> nat option"

text \<open>\<open>str(v)\<close>, which is also what an f-string writes for \<open>{v}\<close>.\<close>

definition py_str :: "pylib \<Rightarrow> json \<Rightarrow> pystr" where
  "py_str L v =
     (case v of
        JStr s \<Rightarrow> s
      | JNull \<Rightarrow> ascii ''None''
      | JBool b \<Rightarrow> (if b then ascii ''True'' else ascii ''False'')
      | JInt i \<Rightarrow> str_int i
      | _ \<Rightarrow> str_other L v)"

text \<open>The truth value of \<open>v\<close> in a condition.\<close>

definition py_truth :: "pylib \<Rightarrow> json \<Rightarrow> bool" where
  "py_truth L v =
     (case v of
        JNull \<Rightarrow> False
      | JBool b \<Rightarrow> b
      | JInt i \<Rightarrow> i \<noteq> 0
      | JFloat x \<Rightarrow> float_truth L x
      | JStr s \<Rightarrow> s \<noteq> []
      | JList xs \<Rightarrow> xs \<noteq> []
      | JDict kvs \<Rightarrow> kvs \<noteq> [])"

text \<open>
  \<open>for case in v\<close>: a list yields its elements, a dictionary its keys, a string its
  characters; nothing else can be iterated.
\<close>

definition py_iter :: "json \<Rightarrow> exn + json list" where
  "py_iter v =
     (case v of
        JList xs \<Rightarrow> Inr xs
      | JDict kvs \<Rightarrow> Inr (map (\<lambda>kv. JStr (fst kv)) kvs)
      | JStr s \<Rightarrow> Inr (map (\<lambda>c. JStr [c]) s)
      | _ \<Rightarrow> Inl TypeError)"

text \<open>\<open>d.get(k, default)\<close>.\<close>

definition dict_get :: "(pystr \<times> json) list \<Rightarrow> pystr \<Rightarrow> json \<Rightarrow> json" where
  "dict_get kvs k dflt = (case map_of kvs k of Some v \<Rightarrow> v | None \<Rightarrow> dflt)"

text \<open>\<open>s.isdigit()\<close>: not empty, and every character a digit.\<close>

definition py_isdigit :: "pylib \<Rightarrow> pystr \<Rightarrow> bool" where
  "py_isdigit L s = (s \<noteq> [] \<and> list_all (is_digit L) s)"

text \<open>
  \<open>int(s)\<close> for a string: surrounding whitespace is dropped (of the ASCII range only
  what C calls a space), then an optional sign, then decimal digits, which single
  underscores may separate.
\<close>

definition int_space :: "nat \<Rightarrow> bool" where
  "int_space c = (py_isspace c \<and> \<not> (0x1C \<le> c \<and> c \<le> 0x1F))"

fun split_on :: "nat \<Rightarrow> pystr \<Rightarrow> pystr list" where
  "split_on sep [] = [[]]"
| "split_on sep (c # cs) =
     (if c = sep then [] # split_on sep cs
      else (case split_on sep cs of g # gs \<Rightarrow> (c # g) # gs | [] \<Rightarrow> [[c]]))"

definition digits_value :: "pylib \<Rightarrow> pystr \<Rightarrow> nat" where
  "digits_value L cs =
     foldl (\<lambda>acc c. acc * 10 + (case decimal_value L c of Some d \<Rightarrow> d | None \<Rightarrow> 0)) 0 cs"

definition py_int :: "pylib \<Rightarrow> pystr \<Rightarrow> exn + int" where
  "py_int L s =
     (let t = rev (dropWhile int_space (rev (dropWhile int_space s)));
          neg = (case t of c # r \<Rightarrow> c = 0x2D | [] \<Rightarrow> False);
          body = (case t of c # r \<Rightarrow> if c = 0x2D \<or> c = 0x2B then r else t | [] \<Rightarrow> t);
          groups = split_on 0x5F body
      in if list_all (\<lambda>g. g \<noteq> [] \<and> list_all (\<lambda>c. decimal_value L c \<noteq> None) g) groups
         then Inr ((if neg then - 1 else 1) * int (digits_value L (concat groups)))
         else Inl (IntValueError s))"

section \<open>A model of \<open>json.loads\<close>\<close>

text \<open>
  The reader of CPython's \<open>json\<close> module, used below to evaluate the code on concrete
  inputs: whitespace is space, tab, line feed and carriage return; a string may not hold
  a control character and knows the escapes of JSON, two \<open>\<bslash>u\<close> escapes that form a
  surrogate pair giving one character; a number is
  \<open>-?(0|[1-9][0-9]*)(.[0-9]+)?([eE][-+]?[0-9]+)?\<close>, an integer when it has neither
  fraction nor exponent; \<open>NaN\<close>, \<open>Infinity\<close> and \<open>-Infinity\<close> are read as floats; of two
  equal keys of an object the last value stays.

  Two limits of the interpreter are parameters of the reader. \<open>max_digits\<close> is the
  longest integer literal that \<open>int\<close> converts (4300 digits by default): a longer one,
  read where a value is expected, raises the \<open>ValueError\<close> written \<open>DigitLimitError\<close>.
  \<open>max_depth\<close> is the number of lists and dictionaries that may be open at once:
  entering one more raises \<open>RecursionError\<close>. In CPython it is the recursion limit
  (1000 by default) less the frames already on the stack when the reader starts.
  The text is read from left to right and the first error met is the one raised.

  A \<open>JSONDecodeError\<close> is built by a constructor written in Python, which needs frames
  of its own, so that close to the limit the error that comes out is \<open>RecursionError\<close>
  instead (\<open>decode_error\<close> below; the numbers are those of CPython 3.11).
\<close>

definition json_ws :: "nat \<Rightarrow> bool" where
  "json_ws c = (c = 0x20 \<or> c = 0x09 \<or> c = 0x0A \<or> c = 0x0D)"

definition ascii_digit :: "nat \<Rightarrow> bool" where
  "ascii_digit c = (0x30 \<le> c \<and> c \<le> 0x39)"

definition hex_value :: "nat \<Rightarrow> nat option" where
  "hex_value c =
     (if 0x30 \<le> c \<and> c \<le> 0x39 then Some (c - 0x30)
      else if 0x61 \<le> c \<and> c \<le> 0x66 then Some (c - 0x61 + 10)
      else if 0x41 \<le> c \<and> c \<le> 0x46 then Some (c - 0x41 + 10)
      else None)"

fun hex4 :: "pystr \<Rightarrow> nat option" where
  "hex4 [a, b, c, d] =
     (case hex_value a of None \<Rightarrow> None | Some w \<Rightarrow>
      case hex_value b of None \<Rightarrow> None | Some x \<Rightarrow>
      case hex_value c of None \<Rightarrow> None | Some y \<Rightarrow>
      case hex_value d of None \<Rightarrow> None | Some z \<Rightarrow>
        Some (((w * 16 + x) * 16 + y) * 16 + z))"
| "hex4 _ = None"

text \<open>The character an escape letter stands for.\<close>

definition escape_char :: "nat \<Rightarrow> nat option" where
  "escape_char e =
     (if e = 0x22 then Some 0x22
      else if e = 0x5C then Some 0x5C
      else if e = 0x2F then Some 0x2F
      else if e = 0x62 then Some 0x08
      else if e = 0x66 then Some 0x0C
      else if e = 0x6E then Some 0x0A
      else if e = 0x72 then Some 0x0D
      else if e = 0x74 then Some 0x09
      else None)"

definition prepend :: "nat \<Rightarrow> (pystr \<times> pystr) option \<Rightarrow> (pystr \<times> pystr) option" where
  "prepend c r = (case r of None \<Rightarrow> None | Some (s, rest) \<Rightarrow> Some (c # s, rest))"

text \<open>
  The body of a string, read from just after the opening quote: the characters it
  denotes, and the input left after the closing quote.
\<close>

fun scan_string :: "pystr \<Rightarrow> (pystr \<times> pystr) option" where
  "scan_string [] = None"
| "scan_string (c # cs) =
     (if c = 0x22 then Some ([], cs)
      else if c < 0x20 then None
      else if c \<noteq> 0x5C then prepend c (scan_string cs)
      else
        (case cs of
           [] \<Rightarrow> None
         | e # cs' \<Rightarrow>
             if e \<noteq> 0x75 then
               (case escape_char e of
                  None \<Rightarrow> None
                | Some x \<Rightarrow> prepend x (scan_string cs'))
             else
               (case hex4 (take 4 cs') of
                  None \<Rightarrow> None
                | Some u \<Rightarrow>
                    if 0xD800 \<le> u \<and> u \<le> 0xDBFF \<and> take 2 (drop 4 cs') = [0x5C, 0x75] then
                      (case hex4 (take 4 (drop 6 cs')) of
                         None \<Rightarrow> None
                       | Some u2 \<Rightarrow>
                           if 0xDC00 \<le> u2 \<and> u2 \<le> 0xDFFF then
                             prepend (0x10000 + (u - 0xD800) * 0x400 + (u2 - 0xDC00))
                               (scan_string (drop 10 cs'))
                           else prepend u (scan_string (drop 4 cs')))
                    else prepend u (scan_string (drop 4 cs')))))"

datatype token =
    TLBrack | TRBrack | TLBrace | TRBrace | TComma | TColon
  | TVal json
  | TDigits
  | TBadStr
  | TBad

text \<open>
  The longest prefix that is a number: its token and the input left, or \<open>None\<close> when the
  input does not start with a number. The token is the value, or \<open>TDigits\<close> for an
  integer literal of more than \<open>max_digits\<close> digits.
\<close>

definition scan_exponent :: "pystr \<Rightarrow> pystr \<times> pystr" where
  "scan_exponent s =
     (case s of
        [] \<Rightarrow> ([], s)
      | e # r \<Rightarrow>
          if e \<noteq> 0x65 \<and> e \<noteq> 0x45 then ([], s)
          else
            (let sg = (case r of c # r' \<Rightarrow> if c = 0x2B \<or> c = 0x2D then [c] else [] | [] \<Rightarrow> []);
                 r1 = drop (length sg) r
             in case r1 of
                  [] \<Rightarrow> ([], s)
                | d # r2 \<Rightarrow>
                    if ascii_digit d then (e # sg @ takeWhile ascii_digit r1, dropWhile ascii_digit r1)
                    else ([], s)))"

definition scan_fraction :: "pystr \<Rightarrow> pystr \<times> pystr" where
  "scan_fraction s =
     (case s of
        p # d # r \<Rightarrow>
          if p = 0x2E \<and> ascii_digit d then (p # d # takeWhile ascii_digit r, dropWhile ascii_digit r)
          else ([], s)
      | _ \<Rightarrow> ([], s))"

definition ascii_value :: "pystr \<Rightarrow> nat" where
  "ascii_value ds = foldl (\<lambda>acc c. acc * 10 + (c - 0x30)) 0 ds"

definition scan_number :: "nat \<Rightarrow> pystr \<Rightarrow> (token \<times> pystr) option" where
  "scan_number max_digits s =
     (let sign = (case s of c # r \<Rightarrow> if c = 0x2D then [c] else [] | [] \<Rightarrow> []);
          s1 = drop (length sign) s
      in case s1 of
           [] \<Rightarrow> None
         | d # r \<Rightarrow>
             if \<not> ascii_digit d then None
             else
               (let ip = (if d = 0x30 then [d] else d # takeWhile ascii_digit r);
                    r1 = (if d = 0x30 then r else dropWhile ascii_digit r);
                    (fp, r2) = scan_fraction r1;
                    (ep, r3) = scan_exponent r2
                in if fp = [] \<and> ep = [] then
                     (if max_digits < length ip then Some (TDigits, r3)
                      else Some (TVal (JInt ((if sign = [] then 1 else - 1) * int (ascii_value ip))),
                                 r3))
                   else Some (TVal (JFloat (sign @ ip @ fp @ ep)), r3)))"

text \<open>
  The input as tokens. Where some part of it is no token the list ends there, with
  \<open>TBadStr\<close> for a string that is not well formed and with \<open>TBad\<close> for anything else.
\<close>

function tokenize :: "nat \<Rightarrow> pystr \<Rightarrow> token list" where
  "tokenize max_digits [] = []"
| "tokenize max_digits (c # cs) =
     (if json_ws c then tokenize max_digits cs
      else if c = 0x5B then TLBrack # tokenize max_digits cs
      else if c = 0x5D then TRBrack # tokenize max_digits cs
      else if c = 0x7B then TLBrace # tokenize max_digits cs
      else if c = 0x7D then TRBrace # tokenize max_digits cs
      else if c = 0x2C then TComma # tokenize max_digits cs
      else if c = 0x3A then TColon # tokenize max_digits cs
      else if c = 0x22 then
        (case scan_string cs of
           None \<Rightarrow> [TBadStr]
         | Some (str, rest) \<Rightarrow> TVal (JStr str) # tokenize max_digits rest)
      else if take 4 (c # cs) = ascii ''null'' then TVal JNull # tokenize max_digits (drop 3 cs)
      else if take 4 (c # cs) = ascii ''true'' then
        TVal (JBool True) # tokenize max_digits (drop 3 cs)
      else if take 5 (c # cs) = ascii ''false'' then
        TVal (JBool False) # tokenize max_digits (drop 4 cs)
      else
        (case scan_number max_digits (c # cs) of
           Some (tok, rest) \<Rightarrow> tok # tokenize max_digits rest
         | None \<Rightarrow>
             if take 3 (c # cs) = ascii ''NaN'' then
               TVal (JFloat (ascii ''NaN'')) # tokenize max_digits (drop 2 cs)
             else if take 8 (c # cs) = ascii ''Infinity'' then
               TVal (JFloat (ascii ''Infinity'')) # tokenize max_digits (drop 7 cs)
             else if take 9 (c # cs) = ascii ''-Infinity'' then
               TVal (JFloat (ascii ''-Infinity'')) # tokenize max_digits (drop 8 cs)
             else [TBad]))"
  by pat_completeness auto
termination
proof -
  have str_rest: "length rest < length cs" if "scan_string cs = Some (str, rest)"
    for cs str rest
    using that
  proof (induction cs arbitrary: str rest rule: length_induct)
    case (1 xs)
    have ih: "length r < length ys" if "length ys < length xs" "scan_string ys = Some (t, r)"
      for ys t r
      using 1(1) that by blast
    have pre: "length r < length ys"
      if "prepend x (scan_string ys) = Some (t, r)" "length ys < length xs" for x ys t r
    proof -
      from that(1) obtain t' where "scan_string ys = Some (t', r)"
        by (auto simp: prepend_def split: option.splits)
      from ih[OF that(2) this] show ?thesis .
    qed
    show ?case
    proof (cases xs)
      case Nil
      with 1(2) show ?thesis by simp
    next
      case (Cons c cs)
      show ?thesis
      proof (cases "c = 0x5C")
        case False
        with 1(2) Cons show ?thesis
          by (auto split: if_splits dest: pre)
      next
        case c: True
        show ?thesis
        proof (cases cs)
          case Nil
          with 1(2) Cons c show ?thesis by simp
        next
          case inner: (Cons e cs')
          have l: "length cs' < length xs" "length (drop 4 cs') < length xs"
            "length (drop 10 cs') < length xs"
            using Cons inner by simp_all
          have d: "length (drop 4 cs') \<le> length cs'" "length (drop 10 cs') \<le> length cs'"
            by simp_all
          from 1(2) have "length rest \<le> length cs'"
            unfolding Cons inner c
            using pre[OF _ l(1)] pre[OF _ l(2)] pre[OF _ l(3)] d
            by (fastforce split: if_splits option.splits)
          then show ?thesis using Cons inner by simp
        qed
      qed
    qed
  qed
  have exp_rest: "length (snd (scan_exponent s)) \<le> length s" for s
    by (auto simp: scan_exponent_def Let_def split: list.splits
          intro: le_trans[OF length_dropWhile_le])
  have frac_rest: "length (snd (scan_fraction s)) \<le> length s" for s
    by (auto simp: scan_fraction_def split: list.splits intro: le_trans[OF length_dropWhile_le])
  have num_rest: "length rest \<le> length cs" if "scan_number m (c # cs) = Some (v, rest)"
    for m c cs v rest
  proof -
    define s1 where "s1 = drop (length (case c # cs of c # r \<Rightarrow> if c = 0x2D then [c] else [] | [] \<Rightarrow> [])) (c # cs)"
    have s1: "length s1 \<le> Suc (length cs)" by (simp add: s1_def)
    from that obtain d r where dr: "s1 = d # r"
      by (cases s1) (auto simp: scan_number_def Let_def s1_def)
    define r1 where "r1 = (if d = 0x30 then r else dropWhile ascii_digit r)"
    have r1: "length r1 \<le> length r"
      by (simp add: r1_def length_dropWhile_le)
    from that dr have "rest = snd (scan_exponent (fst (snd (scan_fraction r1), ())))"
      unfolding scan_number_def Let_def s1_def[symmetric] r1_def
      by (auto split: if_splits prod.splits)
    then have "rest = snd (scan_exponent (snd (scan_fraction r1)))" by simp
    then have "length rest \<le> length r1"
      using exp_rest[of "snd (scan_fraction r1)"] frac_rest[of r1] by simp
    with r1 s1 dr show ?thesis by simp
  qed
  have str_rest': "length rest < Suc (length cs)" if "scan_string cs = Some (str, rest)"
    for cs str rest
    using str_rest[OF that] by simp
  have num_rest': "length rest < Suc (length cs)" if "scan_number m (c # cs) = Some (v, rest)"
    for m c cs v rest
    using num_rest[OF that] by simp
  show ?thesis
    by (relation "measure (\<lambda>(m, s). length s)") (auto dest: str_rest' num_rest')
qed

text \<open>
  The parser reads the tokens one by one, keeping the containers that are still open:
  a list with the elements read so far, a dictionary with the pairs read so far, or a
  dictionary whose next key has been read.
\<close>

datatype frame =
    InList "json list"
  | InDict "(pystr \<times> json) list"
  | InKey "(pystr \<times> json) list" pystr

text \<open>
  What may come next: a value; a value or the end of the list just opened; a key or the
  end of the dictionary just opened; a key; the colon after a key; or, a value \<open>v\<close> being
  complete, whatever may follow it.
\<close>

datatype expect =
    WantValue
  | WantValueOrEnd
  | WantKeyOrEnd
  | WantKey
  | WantColon
  | Have json

text \<open>\<open>d[k] = v\<close>: a key already present keeps its place and takes the new value.\<close>

fun dict_set :: "(pystr \<times> json) list \<Rightarrow> pystr \<Rightarrow> json \<Rightarrow> (pystr \<times> json) list" where
  "dict_set [] k v = [(k, v)]"
| "dict_set ((k', v') # kvs) k v =
     (if k' = k then (k, v) # kvs else (k', v') # dict_set kvs k v)"

text \<open>The grammar: the step a token allows, or \<open>None\<close> when it may not stand there.\<close>

fun parse_step :: "expect \<Rightarrow> frame list \<Rightarrow> token \<Rightarrow> (expect \<times> frame list) option" where
  "parse_step WantValue st (TVal v) = Some (Have v, st)"
| "parse_step WantValue st TLBrack = Some (WantValueOrEnd, InList [] # st)"
| "parse_step WantValue st TLBrace = Some (WantKeyOrEnd, InDict [] # st)"
| "parse_step WantValueOrEnd st (TVal v) = Some (Have v, st)"
| "parse_step WantValueOrEnd st TLBrack = Some (WantValueOrEnd, InList [] # st)"
| "parse_step WantValueOrEnd st TLBrace = Some (WantKeyOrEnd, InDict [] # st)"
| "parse_step WantValueOrEnd (InList acc # st) TRBrack = Some (Have (JList (rev acc)), st)"
| "parse_step WantKeyOrEnd (InDict kvs # st) TRBrace = Some (Have (JDict kvs), st)"
| "parse_step WantKeyOrEnd (InDict kvs # st) (TVal (JStr k)) = Some (WantColon, InKey kvs k # st)"
| "parse_step WantKey (InDict kvs # st) (TVal (JStr k)) = Some (WantColon, InKey kvs k # st)"
| "parse_step WantColon st TColon = Some (WantValue, st)"
| "parse_step (Have v) (InList acc # st) TComma = Some (WantValue, InList (v # acc) # st)"
| "parse_step (Have v) (InList acc # st) TRBrack = Some (Have (JList (rev (v # acc))), st)"
| "parse_step (Have v) (InKey kvs k # st) TComma = Some (WantKey, InDict (dict_set kvs k v) # st)"
| "parse_step (Have v) (InKey kvs k # st) TRBrace = Some (Have (JDict (dict_set kvs k v)), st)"
| "parse_step _ _ _ = None"

text \<open>
  The exception for a text that is not JSON, met with \<open>st\<close> open and \<open>ex\<close> expected;
  \<open>in_string\<close> tells that a string was not well formed. The reader finds a missing
  value (\<open>Expecting value\<close>) and text after the value (\<open>Extra data\<close>) once it has left
  all the containers; every other error it raises inside the containers that are open.
  The error is \<open>RecursionError\<close> when fewer frames are left than its constructor needs.
\<close>

definition wants_value :: "expect \<Rightarrow> bool" where
  "wants_value ex = (ex = WantValue \<or> ex = WantValueOrEnd)"

definition decode_error :: "nat \<Rightarrow> expect \<Rightarrow> frame list \<Rightarrow> bool \<Rightarrow> exn" where
  "decode_error max_depth ex st in_string =
     (let frames =
            (if wants_value ex \<and> \<not> in_string then 1
             else if \<not> wants_value ex \<and> st = [] then 0
             else length st + 2)
      in if max_depth \<le> frames then RecursionError else JSONDecodeError)"

text \<open>
  One step of the reader, with the two limits: where a value is expected, an integer
  literal that is too long raises \<open>DigitLimitError\<close>, and a bracket or brace that would
  open one container more than \<open>max_depth\<close> raises \<open>RecursionError\<close>; every other token
  that may not stand where it does is an error of the text.
\<close>

definition reader_step ::
  "nat \<Rightarrow> expect \<Rightarrow> frame list \<Rightarrow> token \<Rightarrow> exn + (expect \<times> frame list)" where
  "reader_step max_depth ex st t =
     (if wants_value ex \<and> t = TDigits then Inl DigitLimitError
      else if wants_value ex \<and> (t = TLBrack \<or> t = TLBrace) \<and> max_depth \<le> length st
      then Inl RecursionError
      else (case parse_step ex st t of
              None \<Rightarrow> Inl (decode_error max_depth ex st (t = TBadStr))
            | Some r \<Rightarrow> Inr r))"

text \<open>The reader on a list of tokens; the text may end only after a complete value.\<close>

fun parse_tokens :: "nat \<Rightarrow> expect \<Rightarrow> frame list \<Rightarrow> token list \<Rightarrow> exn + json" where
  "parse_tokens max_depth (Have v) [] [] = Inr v"
| "parse_tokens max_depth ex st [] = Inl (decode_error max_depth ex st False)"
| "parse_tokens max_depth ex st (t # ts) =
     (case reader_step max_depth ex st t of
        Inl e \<Rightarrow> Inl e
      | Inr (ex', st') \<Rightarrow> parse_tokens max_depth ex' st' ts)"

definition json_loads :: "nat \<Rightarrow> nat \<Rightarrow> pystr \<Rightarrow> exn + json" where
  "json_loads max_depth max_digits s = parse_tokens max_depth WantValue [] (tokenize max_digits s)"


section \<open>Record synthesis\<close>

text \<open>
  A cell of the data frame after \<open>fillna('')\<close>: the text of a field, or the integer of a
  column that pandas read as integers. (A column read as floating point or as booleans
  is outside this model.)
\<close>

datatype cell = CStr pystr | CInt int

text \<open>\<open>str(x)\<close> for a cell, which is also what an f-string writes for it.\<close>

fun cell_str :: "cell \<Rightarrow> pystr" where
  "cell_str (CStr s) = s"
| "cell_str (CInt i) = str_int i"

text \<open>\<open>int(x)\<close> for a cell.\<close>

fun cell_int :: "pylib \<Rightarrow> cell \<Rightarrow> exn + int" where
  "cell_int L (CStr s) = py_int L s"
| "cell_int L (CInt i) = Inr i"

text \<open>One row of the source table, by column name.\<close>

record row =
  program_name :: cell
  university :: cell
  region :: cell
  tier :: cell
  duration :: cell
  language :: cell
  degree_type :: cell
  pros :: cell
  cons :: cell
  admission_preference :: cell
  application_notes :: cell
  scholarship :: cell
  admission_data :: cell
  admission_data_count :: cell
  internship_required :: cell
  thesis_required :: cell
  other_info :: cell
  other_notes :: cell

subsection \<open>\<open>process_admission_data\<close>\<close>

text \<open>
  The literals of \<open>process_admission_data\<close>. \<open>no_cases_text\<close> is the eight-character
  sentence returned for a missing history (``no admission cases on file yet'');
  \<open>fallback_label\<close> is the label of the fallback, the four characters of ``admission
  data'' followed by a colon and a space.
\<close>

definition no_cases_text :: pystr where
  "no_cases_text = [0x6682, 0x65E0, 0x5F55, 0x53D6, 0x6848, 0x4F8B, 0x6570, 0x636E]"

definition fallback_label :: pystr where
  "fallback_label = [0x5F55, 0x53D6, 0x6570, 0x636E, 0x3A, 0x20]"

text \<open>
  The keys looked up in a case: admission term, admission result, school (tier),
  undergraduate major, GPA/Rank, research experience, internship experience, and other
  (language / recommendation letters).
\<close>

definition key_term :: pystr where
  "key_term = [0x5F55, 0x53D6, 0x65F6, 0x95F4]"

definition key_result :: pystr where
  "key_result = [0x5F55, 0x53D6, 0x7ED3, 0x679C]"

definition key_school :: pystr where
  "key_school = [0x5B66, 0x6821, 0xFF08, 0x6863, 0x6B21, 0xFF09]"

definition key_major :: pystr where
  "key_major = [0x672C, 0x79D1, 0x4E13, 0x4E1A]"

definition key_gpa :: pystr where
  "key_gpa = ascii ''GPA/Rank''"

definition key_research :: pystr where
  "key_research = [0x79D1, 0x7814, 0x7ECF, 0x5386]"

definition key_internship :: pystr where
  "key_internship = [0x5B9E, 0x4E60, 0x7ECF, 0x5386]"

definition key_other :: pystr where
  "key_other = [0x5176, 0x4ED6, 0xFF08, 0x8BED, 0x8A00, 0x2F, 0x63A8, 0x8350, 0x4FE1, 0xFF09]"

text \<open>
  The sentence for one case, the five f-strings of the loop body and the optional sixth.
  Only a dictionary has \<open>get\<close>. The literal pieces are, in order: ``admission case('',
  ``): '', an ideographic full stop, ``applicant background: '', a space, ``major'' with
  a fullwidth comma, ``GPA/Rank '', a fullwidth comma, ``research experience '', a
  fullwidth comma, ``internship experience '', an ideographic full stop, and
  ``other information: ''.
\<close>

definition case_text :: "pylib \<Rightarrow> json \<Rightarrow> exn + pystr" where
  "case_text L c =
     (case c of
        JDict kvs \<Rightarrow>
          Inr ([0x5F55, 0x53D6, 0x6848, 0x4F8B, 0x28]
               @ py_str L (dict_get kvs key_term (JStr (ascii ''N/A'')))
               @ [0x29, 0x3A, 0x20]
               @ py_str L (dict_get kvs key_result (JStr (ascii ''N/A'')))
               @ [0x3002]
               @ [0x7533, 0x8BF7, 0x8005, 0x80CC, 0x666F, 0x3A, 0x20]
               @ py_str L (dict_get kvs key_school (JStr (ascii ''N/A'')))
               @ [0x20]
               @ py_str L (dict_get kvs key_major (JStr (ascii ''N/A'')))
               @ [0x4E13, 0x4E1A, 0xFF0C]
               @ ascii ''GPA/Rank ''
               @ py_str L (dict_get kvs key_gpa (JStr (ascii ''N/A'')))
               @ [0xFF0C]
               @ [0x79D1, 0x7814, 0x7ECF, 0x5386, 0x20]
               @ py_str L (dict_get kvs key_research (JStr (ascii ''N/A'')))
               @ [0xFF0C]
               @ [0x5B9E, 0x4E60, 0x7ECF, 0x5386, 0x20]
               @ py_str L (dict_get kvs key_internship (JStr (ascii ''N/A'')))
               @ [0x3002]
               @ (if py_truth L (dict_get kvs key_other JNull)
                  then [0x5176, 0x4ED6, 0x4FE1, 0x606F, 0x3A, 0x20]
                       @ py_str L (dict_get kvs key_other (JStr []))
                  else []))
      | _ \<Rightarrow> Inl AttributeError)"

text \<open>The loop over the cases: the first case that raises ends it.\<close>

fun collect_cases :: "pylib \<Rightarrow> json list \<Rightarrow> exn + pystr list" where
  "collect_cases L [] = Inr []"
| "collect_cases L (c # cs) =
     (case case_text L c of
        Inl e \<Rightarrow> Inl e
      | Inr t \<Rightarrow>
          (case collect_cases L cs of
             Inl e \<Rightarrow> Inl e
           | Inr ts \<Rightarrow> Inr (t # ts)))"

text \<open>The body of the \<open>try\<close> block, for a string.\<close>

definition narrative :: "pylib \<Rightarrow> pystr \<Rightarrow> exn + pystr" where
  "narrative L admission_data_str =
     (case loads L (replace_char 0x27 0x22 admission_data_str) of
        Inl e \<Rightarrow> Inl e
      | Inr data_list \<Rightarrow>
          (case py_iter data_list of
             Inl e \<Rightarrow> Inl e
           | Inr items \<Rightarrow>
               (case collect_cases L items of
                  Inl e \<Rightarrow> Inl e
                | Inr cases \<Rightarrow> Inr (py_join [0x20] cases))))"

text \<open>
  \<open>process_admission_data(admission_data_str)\<close>. An integer cell is false when it is
  zero and has no \<open>replace\<close>, which raises \<open>AttributeError\<close> inside the \<open>try\<close> block.
  The handler names three classes; any other exception of the \<open>try\<close> block leaves the
  function.
\<close>

definition process_admission_data :: "pylib \<Rightarrow> cell \<Rightarrow> exn + pystr" where
  "process_admission_data L admission_data_str =
     (if admission_data_str = CStr [] \<or> admission_data_str = CInt 0
         \<or> admission_data_str = CStr (ascii ''null'')
      then Inr no_cases_text
      else
        (case (case admission_data_str of
                 CStr s \<Rightarrow> narrative L s
               | CInt i \<Rightarrow> Inl AttributeError) of
           Inr text \<Rightarrow> Inr text
         | Inl e \<Rightarrow>
             if e = JSONDecodeError \<or> e = TypeError \<or> e = AttributeError
             then Inr (fallback_label @ cell_str admission_data_str)
             else Inl e))"

subsection \<open>\<open>create_document_text\<close>\<close>

text \<open>
  The document of a row: the f-string template, every label on a line of its own, then
  \<open>strip()\<close>. The labels are, in order: program name, university, region, program tier,
  duration, teaching language, degree type, program advantages, program disadvantages,
  admission preference, application notes, scholarship information, past admission
  cases, and other information.
\<close>

definition create_document_text :: "pylib \<Rightarrow> row \<Rightarrow> exn + pystr" where
  "create_document_text L r =
     (case process_admission_data L (admission_data r) of
        Inl e \<Rightarrow> Inl e
      | Inr admission_text \<Rightarrow>
          Inr (py_strip
            ([0xA, 0x9879, 0x76EE, 0x540D, 0x79F0, 0x3A, 0x20] @ cell_str (program_name r)
             @ [0xA, 0x6240, 0x5C5E, 0x5927, 0x5B66, 0x3A, 0x20] @ cell_str (university r)
             @ [0xA, 0x5730, 0x533A, 0x3A, 0x20] @ cell_str (region r)
             @ [0xA, 0x9879, 0x76EE, 0x7B49, 0x7EA7, 0x3A, 0x20] @ cell_str (tier r)
             @ [0xA, 0x5B66, 0x5236, 0x3A, 0x20] @ cell_str (duration r)
             @ [0xA, 0x6388, 0x8BFE, 0x8BED, 0x8A00, 0x3A, 0x20] @ cell_str (language r)
             @ [0xA, 0x5B66, 0x4F4D, 0x7C7B, 0x578B, 0x3A, 0x20] @ cell_str (degree_type r)
             @ [0xA, 0xA, 0x9879, 0x76EE, 0x4F18, 0x70B9, 0x3A, 0x20] @ cell_str (pros r)
             @ [0xA, 0xA, 0x9879, 0x76EE, 0x7F3A, 0x70B9, 0x3A, 0x20] @ cell_str (cons r)
             @ [0xA, 0xA, 0x62DB, 0x751F, 0x504F, 0x597D, 0x3A, 0x20]
             @ cell_str (admission_preference r)
             @ [0xA, 0xA, 0x7533, 0x8BF7, 0x6CE8, 0x610F, 0x4E8B, 0x9879, 0x3A, 0x20]
             @ cell_str (application_notes r)
             @ [0xA, 0xA, 0x5956, 0x5B66, 0x91D1, 0x4FE1, 0x606F, 0x3A, 0x20]
             @ cell_str (scholarship r)
             @ [0xA, 0xA, 0x8FC7, 0x5F80, 0x5F55, 0x53D6, 0x6848, 0x4F8B, 0x3A, 0x20]
             @ admission_text
             @ [0xA, 0xA, 0x5176, 0x4ED6, 0x4FE1, 0x606F, 0x3A, 0x20] @ cell_str (other_info r)
             @ [0x20] @ cell_str (other_notes r)
             @ [0xA, 0x20, 0x20, 0x20, 0x20, 0x20, 0x20, 0x20, 0x20])))"

subsection \<open>\<open>load_and_process_data\<close>\<close>

text \<open>
  The metadata dictionary built for every row: seven strings, two booleans, one integer.
\<close>

record metadata =
  md_program_name :: pystr
  md_university :: pystr
  md_region :: pystr
  md_tier :: pystr
  md_duration :: pystr
  md_language :: pystr
  md_degree_type :: pystr
  md_internship_required :: bool
  md_thesis_required :: bool
  md_admission_data_count :: int

text \<open>The sentinel of the two boolean columns: the single character ``yes''.\<close>

definition yes_text :: pystr where
  "yes_text = [0x662F]"

text \<open>
  \<open>True if str(x).strip() == yes else False\<close>, the expression of both boolean
  metadata fields.
\<close>

definition flag_of :: "cell \<Rightarrow> bool" where
  "flag_of x = (if py_strip (cell_str x) = yes_text then True else False)"

text \<open>\<open>int(x) if str(x).isdigit() else 0\<close>, the expression of the count field.\<close>

definition count_of :: "pylib \<Rightarrow> cell \<Rightarrow> exn + int" where
  "count_of L x = (if py_isdigit L (cell_str x) then cell_int L x else Inr 0)"

text \<open>The metadata dictionary of a row.\<close>

definition make_metadata :: "pylib \<Rightarrow> row \<Rightarrow> exn + metadata" where
  "make_metadata L r =
     (case count_of L (admission_data_count r) of
        Inl e \<Rightarrow> Inl e
      | Inr n \<Rightarrow>
          Inr \<lparr>md_program_name = cell_str (program_name r),
               md_university = cell_str (university r),
               md_region = cell_str (region r),
               md_tier = cell_str (tier r),
               md_duration = cell_str (duration r),
               md_language = cell_str (language r),
               md_degree_type = cell_str (degree_type r),
               md_internship_required = flag_of (internship_required r),
               md_thesis_required = flag_of (thesis_required r),
               md_admission_data_count = n\<rparr>)"

text \<open>
  The loop of \<open>load_and_process_data\<close> over the rows of the frame, from row number
  \<open>index\<close> on: documents, metadata and ids, in row order. The frame is the input here;
  reading the file is pandas' work.
\<close>

fun process_rows ::
  "pylib \<Rightarrow> nat \<Rightarrow> row list \<Rightarrow> exn + (pystr list \<times> metadata list \<times> pystr list)" where
  "process_rows L index [] = Inr ([], [], [])"
| "process_rows L index (r # rows) =
     (case create_document_text L r of
        Inl e \<Rightarrow> Inl e
      | Inr doc_text \<Rightarrow>
          (case make_metadata L r of
             Inl e \<Rightarrow> Inl e
           | Inr md \<Rightarrow>
               (case process_rows L (Suc index) rows of
                  Inl e \<Rightarrow> Inl e
                | Inr (documents, metadatas, ids) \<Rightarrow>
                    Inr (doc_text # documents, md # metadatas,
                         (ascii ''program_'' @ str_nat index) # ids))))"

definition load_and_process_data ::
  "pylib \<Rightarrow> row list \<Rightarrow> exn + (pystr list \<times> metadata list \<times> pystr list)" where
  "load_and_process_data L rows = process_rows L 0 rows"

section \<open>The collection store and the database object\<close>

text \<open>One stored item: its id, its document text and its metadata.\<close>

record entry =
  entry_id :: pystr
  entry_document :: pystr
  entry_metadata :: metadata

text \<open>
  The \<open>where\<close> filters the source passes to the store, written there as nested
  dictionaries.
\<close>

datatype scalar = SStr pystr | SInt int | SBool bool

datatype where_filter =
    FieldEq pystr scalar
  | FieldIn pystr "scalar list"
  | FieldGt pystr scalar
  | AndAll "where_filter list"

text \<open>
  Every call the code makes on the Chroma client or on a collection handle is recorded,
  in order, so that a statement can say which external work was attempted.
\<close>

datatype call =
    DeleteCollection pystr
  | CreateCollection pystr
  | Add "pystr list" "metadata list" "pystr list"
  | Count
  | Query pystr nat "where_filter option"

fun is_Add :: "call \<Rightarrow> bool" where
  "is_Add (Add ds ms is) = True"
| "is_Add _ = False"

text \<open>
  Console output: every \<open>print\<close> of \<open>create_collection\<close> and \<open>query_programs\<close> is one
  event, carrying the values its message interpolates.
  \<^item> \<open>DeletedExisting n\<close>: the line printed after a delete that did not raise.
  \<^item> \<open>NotExisting n\<close>: the line printed by the bare \<open>except:\<close> around the delete.
  \<^item> \<open>Created n\<close>: the collection was created.
  \<^item> \<open>Plan t b\<close>: \<open>t\<close> batches of \<open>b\<close> items are about to be added.
  \<^item> \<open>BatchAdded k t\<close>: batch \<open>k\<close> of \<open>t\<close> was added.
  \<^item> \<open>BatchFailed k e\<close>: batch \<open>k\<close> raised \<open>e\<close>.
  \<^item> \<open>Done n\<close>: the closing line, with the value of \<open>collection.count()\<close>.
  \<^item> \<open>QueryFailed e\<close>: the line printed by the handler of \<open>query_programs\<close>.
\<close>

datatype event =
    DeletedExisting pystr
  | NotExisting pystr
  | Created pystr
  | Plan nat nat
  | BatchAdded nat nat
  | BatchFailed nat exn
  | Done nat
  | QueryFailed exn

text \<open>
  The object \<open>CSProgramsDB\<close> together with the persistent client it owns:
  \<open>store\<close> maps the name of every collection that exists to its items, in insertion
  order; \<open>collection\<close> is \<open>self.collection\<close>, the handle of the open collection
  (\<open>None\<close> until one is created or opened), kept as the collection's name.
\<close>

record db =
  collection_name :: pystr
  store :: "pystr \<rightharpoonup> entry list"
  collection :: "pystr option"
  calls :: "call list"
  printed :: "event list"

text \<open>
  The store and the embedding function are external. What they do is fixed by the code
  that calls them only up to failure, so every way an external call can raise is a
  parameter: \<open>delete_fault\<close>, \<open>create_fault\<close> and \<open>count_fault\<close> make the corresponding
  call of one build raise; \<open>add_fault k\<close> makes the \<open>k\<close>-th \<open>add\<close> of the build raise
  (embedding failure, rejected input, persistence failure); \<open>search\<close> is the whole
  outcome of \<open>collection.query\<close> on the items of the collection: an exception or the
  result mapping, a dictionary from key names to columns.
  A call that raises leaves the store as it was.
\<close>

record 'c faults =
  delete_fault :: "exn option"
  create_fault :: "exn option"
  add_fault :: "nat \<Rightarrow> exn option"
  count_fault :: "exn option"
  search :: "pystr \<Rightarrow> nat \<Rightarrow> where_filter option \<Rightarrow> entry list \<Rightarrow> exn + (string \<times> 'c) list"

definition say :: "event \<Rightarrow> db \<Rightarrow> db" where
  "say ev s = s\<lparr>printed := printed s @ [ev]\<rparr>"

definition called :: "call \<Rightarrow> db \<Rightarrow> db" where
  "called c s = s\<lparr>calls := calls s @ [c]\<rparr>"

text \<open>\<open>client.delete_collection(name)\<close>: raises when there is no such collection.\<close>

definition client_delete_collection :: "'c faults \<Rightarrow> pystr \<Rightarrow> db \<Rightarrow> exn option \<times> db" where
  "client_delete_collection F name s =
     (let s1 = called (DeleteCollection name) s in
      case delete_fault F of
        Some e \<Rightarrow> (Some e, s1)
      | None \<Rightarrow>
          (case store s1 name of
             None \<Rightarrow> (Some (NoSuchCollection name), s1)
           | Some es \<Rightarrow> (None, s1\<lparr>store := (store s1)(name := None)\<rparr>)))"

text \<open>\<open>client.create_collection(name, ...)\<close>: raises when the name is taken.\<close>

definition client_create_collection :: "'c faults \<Rightarrow> pystr \<Rightarrow> db \<Rightarrow> exn option \<times> db" where
  "client_create_collection F name s =
     (let s1 = called (CreateCollection name) s in
      case create_fault F of
        Some e \<Rightarrow> (Some e, s1)
      | None \<Rightarrow>
          (case store s1 name of
             Some es \<Rightarrow> (Some (CollectionExists name), s1)
           | None \<Rightarrow> (None, s1\<lparr>store := (store s1)(name \<mapsto> [])\<rparr>)))"

fun zip3 :: "pystr list \<Rightarrow> pystr list \<Rightarrow> metadata list \<Rightarrow> entry list" where
  "zip3 (i # is) (d # ds) (m # ms) =
     \<lparr>entry_id = i, entry_document = d, entry_metadata = m\<rparr> # zip3 is ds ms"
| "zip3 _ _ _ = []"

text \<open>
  \<open>self.collection.add(documents=..., metadatas=..., ids=...)\<close>, the \<open>k\<close>-th of the build:
  it raises as \<open>add_fault k\<close> says, and otherwise appends the items of the batch. On
  \<open>None\<close> the attribute lookup itself raises.
\<close>

definition collection_add ::
  "'c faults \<Rightarrow> nat \<Rightarrow> pystr list \<Rightarrow> metadata list \<Rightarrow> pystr list \<Rightarrow> db \<Rightarrow> exn option \<times> db" where
  "collection_add F k docs metas ids s =
     (case collection s of
        None \<Rightarrow> (Some AttributeError, s)
      | Some name \<Rightarrow>
          (let s1 = called (Add docs metas ids) s in
           case add_fault F k of
             Some e \<Rightarrow> (Some e, s1)
           | None \<Rightarrow>
               (case store s1 name of
                  None \<Rightarrow> (Some (NoSuchCollection name), s1)
                | Some es \<Rightarrow> (None, s1\<lparr>store := (store s1)(name \<mapsto> es @ zip3 ids docs metas)\<rparr>))))"

text \<open>\<open>self.collection.count()\<close>.\<close>

definition collection_count :: "'c faults \<Rightarrow> db \<Rightarrow> (exn + nat) \<times> db" where
  "collection_count F s =
     (case collection s of
        None \<Rightarrow> (Inl AttributeError, s)
      | Some name \<Rightarrow>
          (let s1 = called Count s in
           case count_fault F of
             Some e \<Rightarrow> (Inl e, s1)
           | None \<Rightarrow>
               (case store s1 name of
                  None \<Rightarrow> (Inl (NoSuchCollection name), s1)
                | Some es \<Rightarrow> (Inr (length es), s1))))"

subsection \<open>\<open>create_collection\<close>\<close>

definition batch_size :: nat where
  "batch_size = 10"

text \<open>\<open>xs[i:j]\<close> for indices that are not negative.\<close>

definition slice :: "'a list \<Rightarrow> nat \<Rightarrow> nat \<Rightarrow> 'a list" where
  "slice xs i j = take (j - i) (drop i xs)"

text \<open>\<open>range(0, n, step)\<close> for a positive step: the multiples of \<open>step\<close> below \<open>n\<close>.\<close>

definition range_step :: "nat \<Rightarrow> nat \<Rightarrow> nat list" where
  "range_step n step = map (\<lambda>j. j * step) [0 ..< (n + step - 1) div step]"

text \<open>
  The batch loop, over the start indices still to come. A batch whose \<open>add\<close> raises an
  \<open>Exception\<close> prints the failure and breaks out of the loop; what is not an
  \<open>Exception\<close> leaves the function.
\<close>

fun add_batches ::
  "'c faults \<Rightarrow> pystr list \<Rightarrow> metadata list \<Rightarrow> pystr list \<Rightarrow> nat \<Rightarrow> nat list \<Rightarrow> db \<Rightarrow> exn option \<times> db" where
  "add_batches F documents metadatas ids total_batches [] s = (None, s)"
| "add_batches F documents metadatas ids total_batches (i # rest) s =
     (let batch_docs = slice documents i (i + batch_size);
          batch_ids = slice ids i (i + batch_size);
          batch_metadata = slice metadatas i (i + batch_size);
          batch_num = (i div batch_size) + 1
      in case collection_add F batch_num batch_docs batch_metadata batch_ids s of
           (None, s1) \<Rightarrow>
             add_batches F documents metadatas ids total_batches rest
               (say (BatchAdded batch_num total_batches) s1)
         | (Some e, s1) \<Rightarrow>
             if is_Exception e then (None, say (BatchFailed batch_num e) s1)
             else (Some e, s1))"

text \<open>
  \<open>create_collection(documents, metadatas, ids, recreate)\<close>. The result is the exception
  that left the function, or the value it returned: the function has no \<open>return\<close>
  statement, so that value is Python's \<open>None\<close>, written \<open>None\<close> here too; a returned pair
  (items committed, failing batch) would be \<open>Some\<close> of it.
\<close>

definition create_collection ::
  "'c faults \<Rightarrow> pystr list \<Rightarrow> metadata list \<Rightarrow> pystr list \<Rightarrow> bool \<Rightarrow> db
     \<Rightarrow> (exn + (nat \<times> nat) option) \<times> db" where
  "create_collection F documents metadatas ids recreate s0 =
     (let name = collection_name s0;
          s1 = (if recreate then
                  (case client_delete_collection F name s0 of
                     (None, s) \<Rightarrow> say (DeletedExisting name) s
                   | (Some e, s) \<Rightarrow> say (NotExisting name) s)
                else s0)
      in case client_create_collection F name s1 of
           (Some e, s) \<Rightarrow> (Inl e, s)
         | (None, s) \<Rightarrow>
             (let s2 = say (Created name) (s\<lparr>collection := Some name\<rparr>);
                  total_batches = (length documents + batch_size - 1) div batch_size;
                  s3 = say (Plan total_batches batch_size) s2
              in case add_batches F documents metadatas ids total_batches
                        (range_step (length documents) batch_size) s3 of
                   (Some e, s4) \<Rightarrow> (Inl e, s4)
                 | (None, s4) \<Rightarrow>
                     (case collection_count F s4 of
                        (Inl e, s5) \<Rightarrow> (Inl e, s5)
                      | (Inr n, s5) \<Rightarrow> (Inr None, say (Done n) s5))))"

subsection \<open>\<open>query_programs\<close>\<close>

text \<open>
  \<open>query_programs(query_text, n_results, where_filter)\<close>. A result mapping is a list of
  key and column pairs; \<open>[]\<close> is the empty dictionary \<open>{}\<close> that the handler returns.
\<close>

definition query_programs ::
  "'c faults \<Rightarrow> pystr \<Rightarrow> nat \<Rightarrow> where_filter option \<Rightarrow> db \<Rightarrow> (exn + (string \<times> 'c) list) \<times> db" where
  "query_programs F query_text n_results flt s =
     (case collection s of
        None \<Rightarrow> (Inl NotInitialized, s)
      | Some name \<Rightarrow>
          (let s1 = called (Query query_text n_results flt) s in
           case (case store s1 name of
                   None \<Rightarrow> Inl (NoSuchCollection name)
                 | Some es \<Rightarrow> search F query_text n_results flt es) of
             Inr results \<Rightarrow> (Inr results, s1)
           | Inl e \<Rightarrow>
               if is_Exception e then (Inr [], say (QueryFailed e) s1)
               else (Inl e, s1)))"

section \<open>Concrete inputs\<close>

text \<open>
  A runtime for evaluating the code on concrete inputs: \<open>loads\<close> is the reader modelled
  above, with the limits of CPython 3.11 under its defaults: 4300 digits, and a recursion
  limit of 1000, of which the frames of the calling code are taken to leave 990 to the
  reader. The digit tables are Unicode's for the code points below U+0100, where the
  ASCII digits are the decimal digits and superscript one, two and three are digits that
  are not decimal. It agrees with CPython on every input whose code points
  are below U+0100 or are no digits, and that leads to no \<open>str()\<close> or truth test of a
  float or a container; those two functions are left trivial.
\<close>

definition latin1_digit :: "nat \<Rightarrow> bool" where
  "latin1_digit c = (ascii_digit c \<or> c = 0xB2 \<or> c = 0xB3 \<or> c = 0xB9)"

definition ascii_decimal :: "nat \<Rightarrow> nat option" where
  "ascii_decimal c = (if ascii_digit c then Some (c - 0x30) else None)"

definition cpython_latin1 :: pylib where
  "cpython_latin1 =
     \<lparr>loads = json_loads 990 4300, str_other = (\<lambda>v. []), float_truth = (\<lambda>x. True),
      is_digit = latin1_digit, decimal_value = ascii_decimal\<rparr>"

text \<open>A row with every field empty, and a table of twelve such rows.\<close>

definition blank_row :: row where
  "blank_row =
     \<lparr>program_name = CStr [], university = CStr [], region = CStr [], tier = CStr [],
      duration = CStr [], language = CStr [], degree_type = CStr [], pros = CStr [],
      cons = CStr [], admission_preference = CStr [], application_notes = CStr [],
      scholarship = CStr [], admission_data = CStr [], admission_data_count = CStr [],
      internship_required = CStr [], thesis_required = CStr [], other_info = CStr [],
      other_notes = CStr []\<rparr>"

definition twelve_rows :: "row list" where
  "twelve_rows = replicate 12 blank_row"

text \<open>What \<open>load_and_process_data\<close> makes of the twelve rows.\<close>

definition twelve_documents :: "pystr list" where
  "twelve_documents =
     (case load_and_process_data cpython_latin1 twelve_rows of
        Inr (documents, metadatas, ids) \<Rightarrow> documents
      | Inl e \<Rightarrow> [])"

definition twelve_metadatas :: "metadata list" where
  "twelve_metadatas =
     (case load_and_process_data cpython_latin1 twelve_rows of
        Inr (documents, metadatas, ids) \<Rightarrow> metadatas
      | Inl e \<Rightarrow> [])"

definition twelve_ids :: "pystr list" where
  "twelve_ids =
     (case load_and_process_data cpython_latin1 twelve_rows of
        Inr (documents, metadatas, ids) \<Rightarrow> ids
      | Inl e \<Rightarrow> [])"

text \<open>
  The object as \<open>__init__\<close> leaves it on an empty storage directory, and the same object
  with an empty collection open.
\<close>

definition fresh_db :: db where
  "fresh_db =
     \<lparr>collection_name = ascii ''cs_programs_default'', store = Map.empty,
      collection = None, calls = [], printed = []\<rparr>"

definition open_db :: db where
  "open_db =
     \<lparr>collection_name = ascii ''cs_programs_default'',
      store = [ascii ''cs_programs_default'' \<mapsto> []],
      collection = Some (ascii ''cs_programs_default''), calls = [], printed = []\<rparr>"

text \<open>
  Backends: one on which no call fails and a search returns the first \<open>n\<close> items as its
  only column; one whose \<open>k\<close>-th \<open>add\<close> raises \<open>e\<close>; one whose delete raises \<open>e\<close>; one
  whose search raises \<open>e\<close>.
\<close>

definition sound_backend :: "(entry list list) faults" where
  "sound_backend =
     \<lparr>delete_fault = None, create_fault = None, add_fault = (\<lambda>k. None), count_fault = None,
      search = (\<lambda>q n f es. Inr [(''documents'', [take n es])])\<rparr>"

definition add_fails_at :: "nat \<Rightarrow> exn \<Rightarrow> (entry list list) faults" where
  "add_fails_at k e = sound_backend\<lparr>add_fault := (\<lambda>j. if j = k then Some e else None)\<rparr>"

definition delete_fails :: "exn \<Rightarrow> (entry list list) faults" where
  "delete_fails e = sound_backend\<lparr>delete_fault := Some e\<rparr>"

definition search_fails :: "exn \<Rightarrow> (entry list list) faults" where
  "search_fails e = sound_backend\<lparr>search := (\<lambda>q n f es. Inl e)\<rparr>"

text \<open>
  An admission history with one case, as the table writes it:
  \<open>[{'term': '25Fall', 'result': 'AD'}]\<close>, the two keys being \<open>key_term\<close> and
  \<open>key_result\<close>.
\<close>

definition one_case_text :: pystr where
  "one_case_text =
     ascii ''[{'' @ [0x27] @ key_term @ [0x27] @ ascii '': '' @ [0x27] @ ascii ''25Fall'' @ [0x27]
     @ ascii '', '' @ [0x27] @ key_result @ [0x27] @ ascii '': '' @ [0x27] @ ascii ''AD'' @ [0x27]
     @ ascii ''}]''"

section \<open>Properties\<close>

subsection \<open>The batch loop\<close>

text \<open>
  Slicing the three lists and zipping the slices gives the slice of the zipped items, so
  the batches of the loop are consecutive pieces of the list of items.
\<close>

lemma zip3_take: "zip3 (take n is) (take n ds) (take n ms) = take n (zip3 is ds ms)"
proof (induction "is" ds ms arbitrary: n rule: zip3.induct)
  case (1 i "is" d ds m ms)
  then show ?case by (cases n) simp_all
qed simp_all

lemma zip3_drop: "zip3 (drop n is) (drop n ds) (drop n ms) = drop n (zip3 is ds ms)"
proof (induction "is" ds ms arbitrary: n rule: zip3.induct)
  case (1 i "is" d ds m ms)
  then show ?case by (cases n) simp_all
qed simp_all

lemma zip3_slice:
  "zip3 (slice is i j) (slice ds i j) (slice ms i j) = slice (zip3 is ds ms) i j"
  by (simp add: slice_def zip3_take zip3_drop)

lemma length_zip3: "length (zip3 is ds ms) = min (length is) (min (length ds) (length ms))"
  by (induction "is" ds ms rule: zip3.induct) simp_all

lemma map_entry_id_zip3:
  "length is = length ds \<Longrightarrow> length ms = length ds \<Longrightarrow> map entry_id (zip3 is ds ms) = is"
  by (induction "is" ds ms rule: zip3.induct) simp_all

text \<open>
  The loop started at batch \<open>a + 1\<close>, when batch \<open>k\<close> is the first whose \<open>add\<close> raises:
  the store gains the items of the batches \<open>a + 1\<close> to \<open>k - 1\<close>, the loop makes
  \<open>k - a\<close> calls of \<open>add\<close> and nothing else, and the failure is printed last when it is
  an \<open>Exception\<close>.
\<close>

lemma add_batches_first_failure:
  assumes "collection s = Some name" and "store s name = Some es"
    and "\<forall>j. a < j \<and> j < k \<longrightarrow> add_fault F j = None"
    and "add_fault F k = Some e" and "a < k" and "k \<le> b"
  shows "\<exists>s' cs evs.
           add_batches F docs metas ids tot (map (\<lambda>j. j * batch_size) [a ..< b]) s
             = (if is_Exception e then None else Some e, s')
         \<and> store s' = (store s)(name \<mapsto> es @ take ((k - 1 - a) * batch_size) (drop (a * batch_size) (zip3 ids docs metas)))
         \<and> collection s' = collection s \<and> collection_name s' = collection_name s
         \<and> calls s' = calls s @ cs \<and> length cs = k - a \<and> list_all is_Add cs
         \<and> printed s' = printed s @ evs @ (if is_Exception e then [BatchFailed k e] else [])"
  using assms
proof (induction "k - a" arbitrary: a s es)
  case 0
  then show ?case by simp
next
  case (Suc n)
  let ?items = "zip3 ids docs metas"
  let ?c = "Add (slice docs (a * batch_size) (a * batch_size + batch_size))
                (slice metas (a * batch_size) (a * batch_size + batch_size))
                (slice ids (a * batch_size) (a * batch_size + batch_size))"
  have ab: "a < b" using Suc.prems by simp
  have upt: "[a ..< b] = a # [Suc a ..< b]" using ab by (simp add: upt_conv_Cons)
  have pos: "batch_size \<noteq> 0" by (simp add: batch_size_def)
  show ?case
  proof (cases "Suc a = k")
    case True
    have f: "add_fault F (Suc a) = Some e" using True Suc.prems by simp
    have triv: "(store s)(name \<mapsto> es) = store s"
      using Suc.prems(2) by (simp add: fun_upd_idem)
    have ka: "k - 1 - a = 0" "k - a = 1" using True by auto
    have r: "add_batches F docs metas ids tot (map (\<lambda>j. j * batch_size) [a ..< b]) s
        = (if is_Exception e then None else Some e,
           if is_Exception e then say (BatchFailed k e) (called ?c s) else called ?c s)"
      using Suc.prems(1) f True pos
      by (simp add: upt collection_add_def Let_def)
    show ?thesis
      apply (rule exI[of _ "if is_Exception e then say (BatchFailed k e) (called ?c s) else called ?c s"],
             rule exI[of _ "[?c]"], rule exI[of _ "[]"])
      using r triv ka by (simp add: say_def called_def)
  next
    case False
    then have ok: "add_fault F (Suc a) = None" and lt: "Suc a < k"
      using Suc.prems by auto
    define s1 where "s1 = say (BatchAdded (Suc a) tot)
        ((called ?c s)\<lparr>store := (store s)(name \<mapsto> es @ slice ?items (a * batch_size) (a * batch_size + batch_size))\<rparr>)"
    have step: "add_batches F docs metas ids tot (map (\<lambda>j. j * batch_size) [a ..< b]) s
        = add_batches F docs metas ids tot (map (\<lambda>j. j * batch_size) [Suc a ..< b]) s1"
      using Suc.prems(1,2) ok pos
      by (simp add: upt collection_add_def called_def say_def Let_def s1_def zip3_slice)
    have s1c: "collection s1 = Some name" 
      and s1s: "store s1 name = Some (es @ slice ?items (a * batch_size) (a * batch_size + batch_size))"
      using Suc.prems by (simp_all add: s1_def say_def called_def)
    have n: "n = k - Suc a" using Suc.hyps by simp
    from Suc.hyps(1)[OF n s1c s1s _ Suc.prems(4) lt Suc.prems(6)] Suc.prems(3)
    obtain s' cs evs where
      r: "add_batches F docs metas ids tot (map (\<lambda>j. j * batch_size) [Suc a ..< b]) s1
             = (if is_Exception e then None else Some e, s')"
      and st: "store s' = (store s1)(name \<mapsto> (es @ slice ?items (a * batch_size) (a * batch_size + batch_size))
                 @ take ((k - 1 - Suc a) * batch_size) (drop (Suc a * batch_size) ?items))"
      and c: "collection s' = collection s1" "collection_name s' = collection_name s1"
      and cl: "calls s' = calls s1 @ cs" "length cs = k - Suc a" "list_all is_Add cs"
      and pr: "printed s' = printed s1 @ evs @ (if is_Exception e then [BatchFailed k e] else [])"
      by auto
    have join: "slice ?items (a * batch_size) (a * batch_size + batch_size)
         @ take ((k - 1 - Suc a) * batch_size) (drop (Suc a * batch_size) ?items)
       = take ((k - 1 - a) * batch_size) (drop (a * batch_size) ?items)"
    proof -
      have "k - 1 - a = Suc (k - 1 - Suc a)" using lt by arith
      then have "(k - 1 - a) * batch_size = batch_size + (k - 1 - Suc a) * batch_size"
        by simp
      then show ?thesis
        by (simp add: slice_def take_add add.commute)
    qed
    show ?thesis
      apply (rule exI[of _ s'], rule exI[of _ "?c # cs"],
             rule exI[of _ "BatchAdded (Suc a) tot # evs"])
      using step r st c cl pr lt join
      by (simp add: s1_def say_def called_def)
  qed
qed

text \<open>The loop when no \<open>add\<close> raises: every batch is added and announced.\<close>

lemma add_batches_all_added:
  assumes "collection s = Some name" and "store s name = Some es"
    and "\<forall>j. a < j \<and> j \<le> b \<longrightarrow> add_fault F j = None"
  shows "\<exists>s' cs.
           add_batches F docs metas ids tot (map (\<lambda>j. j * batch_size) [a ..< b]) s = (None, s')
         \<and> store s' = (store s)(name \<mapsto> es @ take ((b - a) * batch_size) (drop (a * batch_size) (zip3 ids docs metas)))
         \<and> collection s' = collection s \<and> collection_name s' = collection_name s
         \<and> calls s' = calls s @ cs \<and> length cs = b - a \<and> list_all is_Add cs
         \<and> printed s' = printed s @ map (\<lambda>j. BatchAdded j tot) [Suc a ..< Suc b]"
  using assms
proof (induction "b - a" arbitrary: a s es)
  case 0
  then have "[a ..< b] = []" "[Suc a ..< Suc b] = []" "b - a = 0" by simp_all
  moreover have "(store s)(name \<mapsto> es) = store s"
    using 0 by (simp add: fun_upd_idem)
  ultimately show ?case by simp
next
  case (Suc n)
  let ?items = "zip3 ids docs metas"
  let ?c = "Add (slice docs (a * batch_size) (a * batch_size + batch_size))
                (slice metas (a * batch_size) (a * batch_size + batch_size))
                (slice ids (a * batch_size) (a * batch_size + batch_size))"
  have ab: "a < b" using Suc.hyps by simp
  have upt: "[a ..< b] = a # [Suc a ..< b]" using ab by (simp add: upt_conv_Cons)
  have upt2: "[Suc a ..< Suc b] = Suc a # [Suc (Suc a) ..< Suc b]"
    using ab by (simp add: upt_conv_Cons)
  have pos: "batch_size \<noteq> 0" by (simp add: batch_size_def)
  have ok: "add_fault F (Suc a) = None" using Suc.prems ab by simp
  define s1 where "s1 = say (BatchAdded (Suc a) tot)
      ((called ?c s)\<lparr>store := (store s)(name \<mapsto> es @ slice ?items (a * batch_size) (a * batch_size + batch_size))\<rparr>)"
  have step: "add_batches F docs metas ids tot (map (\<lambda>j. j * batch_size) [a ..< b]) s
      = add_batches F docs metas ids tot (map (\<lambda>j. j * batch_size) [Suc a ..< b]) s1"
    using Suc.prems(1,2) ok pos
    by (simp add: upt collection_add_def called_def say_def Let_def s1_def zip3_slice)
  have s1c: "collection s1 = Some name" 
    and s1s: "store s1 name = Some (es @ slice ?items (a * batch_size) (a * batch_size + batch_size))"
    using Suc.prems by (simp_all add: s1_def say_def called_def)
  have n: "n = b - Suc a" using Suc.hyps by simp
  from Suc.hyps(1)[OF n s1c s1s] Suc.prems(3)
  obtain s' cs where
    r: "add_batches F docs metas ids tot (map (\<lambda>j. j * batch_size) [Suc a ..< b]) s1 = (None, s')"
    and st: "store s' = (store s1)(name \<mapsto> (es @ slice ?items (a * batch_size) (a * batch_size + batch_size))
               @ take ((b - Suc a) * batch_size) (drop (Suc a * batch_size) ?items))"
    and c: "collection s' = collection s1" "collection_name s' = collection_name s1"
    and cl: "calls s' = calls s1 @ cs" "length cs = b - Suc a" "list_all is_Add cs"
    and pr: "printed s' = printed s1 @ map (\<lambda>j. BatchAdded j tot) [Suc (Suc a) ..< Suc b]"
    by auto
  have join: "slice ?items (a * batch_size) (a * batch_size + batch_size)
       @ take ((b - Suc a) * batch_size) (drop (Suc a * batch_size) ?items)
     = take ((b - a) * batch_size) (drop (a * batch_size) ?items)"
  proof -
    have "b - a = Suc (b - Suc a)" using ab by arith
    then have "(b - a) * batch_size = batch_size + (b - Suc a) * batch_size"
      by simp
    then show ?thesis
      by (simp add: slice_def take_add add.commute)
  qed
  show ?case
    apply (rule exI[of _ s'], rule exI[of _ "?c # cs"])
    using step r st c cl pr ab join upt2
    by (simp add: s1_def say_def called_def)
qed

subsection \<open>The build as a whole\<close>

text \<open>
  When neither the delete nor the create call fails for a reason of the backend, a build
  that recreates reaches the batch loop with a fresh, empty collection, whatever the
  store held before.
\<close>

lemma create_collection_prologue:
  assumes "delete_fault F = None" and "create_fault F = None"
  shows "\<exists>s3 ev.
      collection s3 = Some (collection_name s) \<and> collection_name s3 = collection_name s
    \<and> store s3 = (store s)(collection_name s \<mapsto> [])
    \<and> calls s3 = calls s @ [DeleteCollection (collection_name s), CreateCollection (collection_name s)]
    \<and> printed s3 = printed s @ [ev, Created (collection_name s),
          Plan ((length d + batch_size - 1) div batch_size) batch_size]
    \<and> create_collection F d m i True s =
        (case add_batches F d m i ((length d + batch_size - 1) div batch_size)
                (range_step (length d) batch_size) s3 of
           (Some e, s4) \<Rightarrow> (Inl e, s4)
         | (None, s4) \<Rightarrow>
             (case collection_count F s4 of
                (Inl e, s5) \<Rightarrow> (Inl e, s5)
              | (Inr n, s5) \<Rightarrow> (Inr None, say (Done n) s5)))"
proof (cases "store s (collection_name s)")
  case None
  show ?thesis
    apply (rule exI[of _ "say (Plan ((length d + batch_size - 1) div batch_size) batch_size)
       (say (Created (collection_name s))
         ((called (CreateCollection (collection_name s))
            (say (NotExisting (collection_name s)) (called (DeleteCollection (collection_name s)) s)))
          \<lparr>store := (store s)(collection_name s \<mapsto> []), collection := Some (collection_name s)\<rparr>))"],
       rule exI[of _ "NotExisting (collection_name s)"])
    using assms None
    by (simp add: create_collection_def client_delete_collection_def client_create_collection_def
          say_def called_def Let_def)
next
  case (Some es)
  show ?thesis
    apply (rule exI[of _ "say (Plan ((length d + batch_size - 1) div batch_size) batch_size)
       (say (Created (collection_name s))
         ((called (CreateCollection (collection_name s))
            (say (DeletedExisting (collection_name s)) (called (DeleteCollection (collection_name s)) s)))
          \<lparr>store := (store s)(collection_name s \<mapsto> []), collection := Some (collection_name s)\<rparr>))"],
       rule exI[of _ "DeletedExisting (collection_name s)"])
    using assms Some
    by (simp add: create_collection_def client_delete_collection_def client_create_collection_def
          say_def called_def Let_def)
qed

lemma collection_count_frame:
  "\<exists>cs. store (snd (collection_count F s)) = store s
      \<and> calls (snd (collection_count F s)) = calls s @ cs \<and> list_all (\<lambda>c. \<not> is_Add c) cs
      \<and> printed (snd (collection_count F s)) = printed s"
  by (auto simp: collection_count_def called_def Let_def split: option.splits)

lemma collection_count_value:
  "collection s = Some name \<Longrightarrow> store s name = Some es \<Longrightarrow> count_fault F = None
   \<Longrightarrow> collection_count F s = (Inr (length es), called Count s)"
  by (simp add: collection_count_def called_def Let_def)

lemma batch_exists: "(k - 1) * batch_size < n \<Longrightarrow> k \<le> (n + batch_size - 1) div batch_size"
  unfolding batch_size_def by (cases k) auto

lemma build_first_failure:
  assumes "delete_fault F = None" and "create_fault F = None"
    and "\<forall>j. 0 < j \<and> j < k \<longrightarrow> add_fault F j = None"
    and "add_fault F k = Some e" and "0 < k" and "(k - 1) * batch_size < length d"
  shows "\<exists>s' pre cs post.
      snd (create_collection F d m i True s) = s'
    \<and> store s' (collection_name s) = Some (take ((k - 1) * batch_size) (zip3 i d m))
    \<and> calls s' = calls s @ pre @ cs @ post
    \<and> list_all (\<lambda>c. \<not> is_Add c) pre \<and> list_all is_Add cs \<and> length cs = k
    \<and> list_all (\<lambda>c. \<not> is_Add c) post"
proof -
  let ?n = "collection_name s"
  let ?tot = "(length d + batch_size - 1) div batch_size"
  obtain s3 ev where s3: "collection s3 = Some ?n" "collection_name s3 = ?n"
      "store s3 = (store s)(?n \<mapsto> [])"
      "calls s3 = calls s @ [DeleteCollection ?n, CreateCollection ?n]"
    and cc: "create_collection F d m i True s =
        (case add_batches F d m i ?tot (range_step (length d) batch_size) s3 of
           (Some e, s4) \<Rightarrow> (Inl e, s4)
         | (None, s4) \<Rightarrow>
             (case collection_count F s4 of
                (Inl e, s5) \<Rightarrow> (Inl e, s5)
              | (Inr n, s5) \<Rightarrow> (Inr None, say (Done n) s5)))"
    using create_collection_prologue[OF assms(1,2), of s d m i] by blast
  have s3s: "store s3 ?n = Some []" using s3 by simp
  have kb: "k \<le> ?tot" using batch_exists[OF assms(6)] .
  from add_batches_first_failure[OF s3(1) s3s _ assms(4,5) kb, of d m i ?tot] assms(3)
  obtain s4 cs evs where
    r: "add_batches F d m i ?tot (range_step (length d) batch_size) s3
          = (if is_Exception e then None else Some e, s4)"
    and st: "store s4 = (store s3)(?n \<mapsto> take ((k - 1) * batch_size) (zip3 i d m))"
    and cl: "calls s4 = calls s3 @ cs" "length cs = k" "list_all is_Add cs"
    unfolding range_step_def by auto
  show ?thesis
  proof (cases "is_Exception e")
    case False
    then have "snd (create_collection F d m i True s) = s4"
      using cc r by simp
    then show ?thesis
      using st cl s3
      by (intro exI[of _ s4] exI[of _ "[DeleteCollection ?n, CreateCollection ?n]"]
            exI[of _ cs] exI[of _ "[]"]) simp
  next
    case True
    obtain post where p: "store (snd (collection_count F s4)) = store s4"
        "calls (snd (collection_count F s4)) = calls s4 @ post" "list_all (\<lambda>c. \<not> is_Add c) post"
      using collection_count_frame[of F s4] by blast
    let ?s' = "snd (create_collection F d m i True s)"
    have "store ?s' = store (snd (collection_count F s4))
        \<and> calls ?s' = calls (snd (collection_count F s4))"
      using cc r True
      by (cases "collection_count F s4") (auto simp: say_def split: sum.splits)
    then show ?thesis
      using st cl s3 p
      by (intro exI[of _ ?s'] exI[of _ "[DeleteCollection ?n, CreateCollection ?n]"]
            exI[of _ cs] exI[of _ post]) simp
  qed
qed

lemma build_reports_failure:
  assumes "delete_fault F = None" and "create_fault F = None"
    and "\<forall>j. 0 < j \<and> j < k \<longrightarrow> add_fault F j = None"
    and "add_fault F k = Some e" and "is_Exception e" and "count_fault F = None"
    and "0 < k" and "(k - 1) * batch_size < length d"
  shows "\<exists>s' evs.
      create_collection F d m i True s = (Inr None, s')
    \<and> printed s' = printed s @ evs @ [BatchFailed k e, Done (length (take ((k - 1) * batch_size) (zip3 i d m)))]"
proof -
  let ?n = "collection_name s"
  let ?tot = "(length d + batch_size - 1) div batch_size"
  obtain s3 ev where s3: "collection s3 = Some ?n" "collection_name s3 = ?n"
      "store s3 = (store s)(?n \<mapsto> [])"
      "printed s3 = printed s @ [ev, Created ?n, Plan ?tot batch_size]"
    and cc: "create_collection F d m i True s =
        (case add_batches F d m i ?tot (range_step (length d) batch_size) s3 of
           (Some e, s4) \<Rightarrow> (Inl e, s4)
         | (None, s4) \<Rightarrow>
             (case collection_count F s4 of
                (Inl e, s5) \<Rightarrow> (Inl e, s5)
              | (Inr n, s5) \<Rightarrow> (Inr None, say (Done n) s5)))"
    using create_collection_prologue[OF assms(1,2), of s d m i] by blast
  have s3s: "store s3 ?n = Some []" using s3 by simp
  have kb: "k \<le> ?tot" using batch_exists[OF assms(8)] .
  from add_batches_first_failure[OF s3(1) s3s _ assms(4,7) kb, of d m i ?tot] assms(3,5)
  obtain s4 evs where
    r: "add_batches F d m i ?tot (range_step (length d) batch_size) s3 = (None, s4)"
    and st: "store s4 = (store s3)(?n \<mapsto> take ((k - 1) * batch_size) (zip3 i d m))"
    and c4: "collection s4 = Some ?n"
    and pr: "printed s4 = printed s3 @ evs @ [BatchFailed k e]"
    unfolding range_step_def using s3(1) by auto
  have cnt: "collection_count F s4
      = (Inr (length (take ((k - 1) * batch_size) (zip3 i d m))), called Count s4)"
    using collection_count_value[OF c4 _ assms(6)] st by simp
  show ?thesis
    using cc r cnt pr s3(4)
    by (intro exI[of _ "say (Done (length (take ((k - 1) * batch_size) (zip3 i d m)))) (called Count s4)"]
          exI[of _ "[ev, Created ?n, Plan ?tot batch_size] @ evs"])
       (simp add: say_def called_def)
qed

lemma build_all_added:
  assumes "delete_fault F = None" and "create_fault F = None"
    and "\<forall>j. add_fault F j = None" and "count_fault F = None"
    and "length i = length d" and "length m = length d"
  shows "\<exists>s' evs.
      create_collection F d m i True s = (Inr None, s')
    \<and> store s' = (store s)(collection_name s \<mapsto> zip3 i d m)
    \<and> collection s' = Some (collection_name s) \<and> collection_name s' = collection_name s
    \<and> printed s' = printed s @ evs @ [Done (length d)]"
proof -
  let ?n = "collection_name s"
  let ?tot = "(length d + batch_size - 1) div batch_size"
  obtain s3 ev where s3: "collection s3 = Some ?n" "collection_name s3 = ?n"
      "store s3 = (store s)(?n \<mapsto> [])"
      "printed s3 = printed s @ [ev, Created ?n, Plan ?tot batch_size]"
    and cc: "create_collection F d m i True s =
        (case add_batches F d m i ?tot (range_step (length d) batch_size) s3 of
           (Some e, s4) \<Rightarrow> (Inl e, s4)
         | (None, s4) \<Rightarrow>
             (case collection_count F s4 of
                (Inl e, s5) \<Rightarrow> (Inl e, s5)
              | (Inr n, s5) \<Rightarrow> (Inr None, say (Done n) s5)))"
    using create_collection_prologue[OF assms(1,2), of s d m i] by blast
  have s3s: "store s3 ?n = Some []" using s3 by simp
  have len: "length (zip3 i d m) = length d" using assms(5,6) by (simp add: length_zip3)
  have "length d \<le> ?tot * batch_size" unfolding batch_size_def by arith
  then have all: "take (?tot * batch_size) (zip3 i d m) = zip3 i d m"
    using len by simp
  from add_batches_all_added[OF s3(1) s3s, of 0 ?tot F d m i ?tot] assms(3)
  obtain s4 where
    r: "add_batches F d m i ?tot (range_step (length d) batch_size) s3 = (None, s4)"
    and st: "store s4 = (store s3)(?n \<mapsto> zip3 i d m)"
    and c4: "collection s4 = Some ?n" "collection_name s4 = ?n"
    and pr: "printed s4 = printed s3 @ map (\<lambda>j. BatchAdded j ?tot) [Suc 0 ..< Suc ?tot]"
    unfolding range_step_def using s3(1,2) all by auto
  have cnt: "collection_count F s4 = (Inr (length d), called Count s4)"
    using collection_count_value[OF c4(1) _ assms(4)] st len by simp
  show ?thesis
    using cc r cnt pr s3 st c4
    by (intro exI[of _ "say (Done (length d)) (called Count s4)"]
          exI[of _ "[ev, Created ?n, Plan ?tot batch_size] @ map (\<lambda>j. BatchAdded j ?tot) [Suc 0 ..< Suc ?tot]"])
       (simp add: say_def called_def)
qed

subsection \<open>The synthesized data set\<close>

text \<open>
  Decimal rendering is injective, so the ids \<open>program_0\<close>, \<open>program_1\<close>, ... are
  distinct; the three lists have one element per row.
\<close>

lemma ascii_value_snoc: "ascii_value (ds @ [c]) = ascii_value ds * 10 + (c - 0x30)"
  by (simp add: ascii_value_def)

lemma ascii_value_str_nat: "ascii_value (str_nat n) = n"
proof (induction n rule: str_nat.induct)
  case (1 n)
  show ?case
  proof (cases "n < 10")
    case True
    then show ?thesis by (simp add: str_nat.simps[of n] ascii_value_def)
  next
    case False
    with 1 have "ascii_value (str_nat (n div 10)) = n div 10" by simp
    with False show ?thesis
      by (simp add: str_nat.simps[of n] ascii_value_snoc)
  qed
qed

lemma str_nat_inj: "str_nat a = str_nat b \<Longrightarrow> a = b"
  by (metis ascii_value_str_nat)

lemma program_ids_distinct:
  "distinct (map (\<lambda>j. ascii ''program_'' @ str_nat j) [a ..< b])"
  by (auto simp: distinct_map inj_on_def dest: str_nat_inj)

lemma process_rows_shape:
  "process_rows L n rows = Inr (ds, ms, is) \<Longrightarrow>
     length ds = length rows \<and> length ms = length rows
     \<and> is = map (\<lambda>j. ascii ''program_'' @ str_nat j) [n ..< n + length rows]"
proof (induction rows arbitrary: n ds ms "is")
  case Nil
  then show ?case by simp
next
  case (Cons r rows)
  from Cons.prems obtain doc md ds' ms' is' where
    rest: "process_rows L (Suc n) rows = Inr (ds', ms', is')"
    and eq: "ds = doc # ds'" "ms = md # ms'" "is = (ascii ''program_'' @ str_nat n) # is'"
    by (auto split: sum.splits prod.splits)
  have u: "[n ..< n + length (r # rows)] = n # [Suc n ..< Suc n + length rows]"
  proof -
    have "n < n + length (r # rows)" by simp
    from upt_conv_Cons[OF this] show ?thesis by (simp del: upt_Suc)
  qed
  show ?case
    unfolding u using Cons.IH[OF rest] eq by simp
qed

lemma dataset_shape:
  assumes "load_and_process_data L rows = Inr (ds, ms, is)"
  shows "length ds = length rows" and "length ms = length rows" and "length is = length rows"
    and "is = map (\<lambda>j. ascii ''program_'' @ str_nat j) [0 ..< length rows]"
    and "distinct is"
    and "map entry_id (zip3 is ds ms) = is"
    and "length (zip3 is ds ms) = length rows"
proof -
  from process_rows_shape[OF assms[unfolded load_and_process_data_def]]
  show a: "length ds = length rows" and b: "length ms = length rows"
    and c: "is = map (\<lambda>j. ascii ''program_'' @ str_nat j) [0 ..< length rows]"
    by simp_all
  from c show d: "length is = length rows" by simp
  from c show "distinct is" using program_ids_distinct[of 0 "length rows"] by simp
  from a b d show "map entry_id (zip3 is ds ms) = is" by (simp add: map_entry_id_zip3)
  from a b d show "length (zip3 is ds ms) = length rows" by (simp add: length_zip3)
qed

subsection \<open>Batch fail-fast\<close>

text \<open>
  Claim C1 (batch fail-fast). The data set is what \<open>load_and_process_data\<close> makes of any
  table of rows, and the build recreates the collection. If the \<open>add\<close> of batch \<open>k\<close>
  (counted from 1) raises, the batches before it having been added, then afterwards the
  collection holds exactly the first \<open>(k - 1) * 10\<close> items of the data set, in row order:
  the items of the batches before \<open>k\<close>. No id of a later row is in the store, and the
  build made exactly \<open>k\<close> calls of \<open>add\<close>: none after the one that failed.
\<close>

theorem batch_fail_fast:
  assumes "load_and_process_data L rows = Inr (documents, metadatas, ids)"
    and "delete_fault F = None" and "create_fault F = None"
    and "\<forall>j. 0 < j \<and> j < k \<longrightarrow> add_fault F j = None"
    and "add_fault F k = Some e"
    and "0 < k" and "(k - 1) * batch_size < length rows"
  shows "\<exists>es pre adds post.
      store (snd (create_collection F documents metadatas ids True s)) (collection_name s) = Some es
    \<and> es = take ((k - 1) * batch_size) (zip3 ids documents metadatas)
    \<and> length es = (k - 1) * batch_size
    \<and> map entry_id es = map (\<lambda>j. ascii ''program_'' @ str_nat j) [0 ..< (k - 1) * batch_size]
    \<and> (\<forall>j. (k - 1) * batch_size \<le> j \<and> j < length rows
           \<longrightarrow> ascii ''program_'' @ str_nat j \<notin> set (map entry_id es))
    \<and> calls (snd (create_collection F documents metadatas ids True s)) = calls s @ pre @ adds @ post
    \<and> list_all (\<lambda>c. \<not> is_Add c) pre \<and> list_all is_Add adds \<and> length adds = k
    \<and> list_all (\<lambda>c. \<not> is_Add c) post"
proof -
  let ?items = "zip3 ids documents metadatas"
  let ?n = "(k - 1) * batch_size"
  let ?f = "\<lambda>j. ascii ''program_'' @ str_nat j"
  note sh = dataset_shape[OF assms(1)]
  have lt: "?n < length documents" using assms(7) sh(1) by simp
  from build_first_failure[OF assms(2-6) lt, of metadatas ids s]
  obtain s' pre cs post where
    s': "snd (create_collection F documents metadatas ids True s) = s'"
    and st: "store s' (collection_name s) = Some (take ?n ?items)"
    and cl: "calls s' = calls s @ pre @ cs @ post" "list_all (\<lambda>c. \<not> is_Add c) pre"
      "list_all is_Add cs" "length cs = k" "list_all (\<lambda>c. \<not> is_Add c) post"
    by blast
  have len: "length (take ?n ?items) = ?n" using sh(7) assms(7) by simp
  have ids: "map entry_id (take ?n ?items) = map ?f [0 ..< ?n]"
  proof -
    have "map entry_id (take ?n ?items) = take ?n (map ?f [0 ..< length rows])"
      using sh(4,6) by (simp add: take_map[symmetric])
    also have "\<dots> = map ?f (take ?n [0 ..< length rows])" by (simp add: take_map)
    also have "take ?n [0 ..< length rows] = [0 ..< ?n]" using assms(7) by (simp add: take_upt)
    finally show ?thesis .
  qed
  have later: "?f j \<notin> set (map entry_id (take ?n ?items))" if "?n \<le> j" for j
  proof
    assume "?f j \<in> set (map entry_id (take ?n ?items))"
    then have "?f j \<in> set (map ?f [0 ..< ?n])" unfolding ids .
    then obtain j' where "j' < ?n" "?f j = ?f j'" by auto
    then have "j = j'" using str_nat_inj by simp
    with \<open>j' < ?n\<close> that show False by simp
  qed
  show ?thesis
    using s' st cl len ids later
    by (intro exI[of _ "take ?n ?items"] exI[of _ pre] exI[of _ cs] exI[of _ post]) simp
qed

subsection \<open>The admission history\<close>

text \<open>
  Whatever the \<open>try\<close> block raises is one of the three classes its handler names.
\<close>

lemma case_text_error: "case_text L c = Inl e \<Longrightarrow> e = AttributeError"
  by (auto simp: case_text_def split: json.splits)

lemma case_text_other: "(\<forall>kvs. c \<noteq> JDict kvs) \<Longrightarrow> case_text L c = Inl AttributeError"
  by (cases c) (simp_all add: case_text_def)

lemma collect_cases_error: "collect_cases L cs = Inl e \<Longrightarrow> e = AttributeError"
  by (induction cs) (auto split: sum.splits dest: case_text_error)

lemma collect_cases_not_mapping:
  "c \<in> set cs \<Longrightarrow> \<forall>kvs. c \<noteq> JDict kvs \<Longrightarrow> collect_cases L cs = Inl AttributeError"
proof (induction cs)
  case Nil
  then show ?case by simp
next
  case (Cons a cs)
  show ?case
  proof (cases "case_text L a")
    case (Inl e)
    then show ?thesis using case_text_error[OF Inl] by simp
  next
    case (Inr t)
    then have "c \<noteq> a" using Cons.prems(2) case_text_other[of a L] by auto
    with Cons have "collect_cases L cs = Inl AttributeError" by simp
    with Inr show ?thesis by simp
  qed
qed

lemma py_iter_error: "py_iter v = Inl e \<Longrightarrow> e = TypeError"
  by (auto simp: py_iter_def split: json.splits)

text \<open>
  What the body of the \<open>try\<close> block raises is what \<open>json.loads\<close> raised, or one of two
  classes that the handler names.
\<close>

lemma narrative_error:
  "narrative L s = Inl e
   \<Longrightarrow> loads L (replace_char 0x27 0x22 s) = Inl e \<or> e = TypeError \<or> e = AttributeError"
  by (auto simp: narrative_def split: sum.splits dest: py_iter_error collect_cases_error)

lemma process_admission_data_blank: "process_admission_data L (CStr []) = Inr no_cases_text"
  by (simp add: process_admission_data_def)

lemma process_admission_data_returns:
  assumes "\<forall>e. loads L (replace_char 0x27 0x22 s) = Inl e
             \<longrightarrow> e = JSONDecodeError \<or> e = TypeError \<or> e = AttributeError"
  shows "\<exists>t. process_admission_data L (CStr s) = Inr t"
proof (cases "narrative L s")
  case (Inl e)
  with narrative_error[OF Inl] assms show ?thesis
    by (auto simp: process_admission_data_def)
next
  case (Inr t)
  then show ?thesis by (simp add: process_admission_data_def)
qed

lemma fallback_when_raises:
  assumes "s \<noteq> []" and "s \<noteq> ascii ''null''" and "narrative L s = Inl e"
    and "e = JSONDecodeError \<or> e = TypeError \<or> e = AttributeError"
  shows "process_admission_data L (CStr s) = Inr (fallback_label @ s)"
  using assms by (auto simp: process_admission_data_def)

text \<open>
  An exception of \<open>json.loads\<close> that the handler does not name leaves
  \<open>process_admission_data\<close>.
\<close>

lemma process_admission_data_propagates:
  assumes "s \<noteq> []" and "s \<noteq> ascii ''null''"
    and "loads L (replace_char 0x27 0x22 s) = Inl e"
    and "e \<noteq> JSONDecodeError" and "e \<noteq> TypeError" and "e \<noteq> AttributeError"
  shows "process_admission_data L (CStr s) = Inl e"
  using assms by (simp add: process_admission_data_def narrative_def)

lemma single_case_contains:
  assumes "s \<noteq> []" and "s \<noteq> ascii ''null''"
    and "loads L (replace_char 0x27 0x22 s) = Inr (JList [JDict kvs])"
    and "map_of kvs key_term = Some (JStr t)" and "map_of kvs key_result = Some (JStr r)"
  shows "\<exists>a b c. process_admission_data L (CStr s) = Inr (a @ t @ b @ r @ c)"
proof -
  obtain rest where ct: "case_text L (JDict kvs)
      = Inr ([0x5F55, 0x53D6, 0x6848, 0x4F8B, 0x28] @ t @ [0x29, 0x3A, 0x20] @ r @ rest)"
    using assms(4,5) by (simp add: case_text_def dict_get_def py_str_def)
  have "narrative L s = Inr ([0x5F55, 0x53D6, 0x6848, 0x4F8B, 0x28] @ t @ [0x29, 0x3A, 0x20] @ r @ rest)"
    using assms(3) ct by (simp add: narrative_def py_iter_def)
  then have "process_admission_data L (CStr s)
      = Inr ([0x5F55, 0x53D6, 0x6848, 0x4F8B, 0x28] @ t @ [0x29, 0x3A, 0x20] @ r @ rest)"
    using assms(1,2) by (simp add: process_admission_data_def)
  then show ?thesis by blast
qed

text \<open>
  Claim C2 (admission-history fallback), as the code has it. For every string on which
  \<open>json.loads\<close> returns a value or raises one of the three classes that the handler
  names, \<open>process_admission_data\<close> returns a string and raises nothing. The empty string
  and \<open>null\<close> give the fixed sentence. Otherwise, when \<open>json.loads\<close> raises one of the
  three classes on the string with its quotes replaced (\<open>JSONDecodeError\<close> for a text
  that is not JSON), or the value read cannot be iterated (\<open>None\<close>, a boolean, a number),
  or some item met while iterating it is not a dictionary, the result is the label
  followed by the string as it came; a value that iterates over nothing gives the empty
  text. A list with one dictionary whose term and result are strings gives a text that
  contains both.
\<close>

theorem admission_history_fallback:
  "((\<forall>e. loads L (replace_char 0x27 0x22 s) = Inl e
          \<longrightarrow> e = JSONDecodeError \<or> e = TypeError \<or> e = AttributeError)
      \<longrightarrow> (\<exists>t. process_admission_data L (CStr s) = Inr t))
   \<and> (s = [] \<or> s = ascii ''null'' \<longrightarrow> process_admission_data L (CStr s) = Inr no_cases_text)
   \<and> (s \<noteq> [] \<and> s \<noteq> ascii ''null'' \<and> loads L (replace_char 0x27 0x22 s) = Inl e
        \<and> (e = JSONDecodeError \<or> e = TypeError \<or> e = AttributeError)
        \<longrightarrow> process_admission_data L (CStr s) = Inr (fallback_label @ s))
   \<and> (s \<noteq> [] \<and> s \<noteq> ascii ''null'' \<and> loads L (replace_char 0x27 0x22 s) = Inr v
        \<and> (v = JNull \<or> (\<exists>b. v = JBool b) \<or> (\<exists>i. v = JInt i) \<or> (\<exists>x. v = JFloat x))
        \<longrightarrow> process_admission_data L (CStr s) = Inr (fallback_label @ s))
   \<and> (s \<noteq> [] \<and> s \<noteq> ascii ''null'' \<and> loads L (replace_char 0x27 0x22 s) = Inr v
        \<and> py_iter v = Inr items \<and> c \<in> set items \<and> (\<forall>kvs. c \<noteq> JDict kvs)
        \<longrightarrow> process_admission_data L (CStr s) = Inr (fallback_label @ s))
   \<and> (s \<noteq> [] \<and> s \<noteq> ascii ''null'' \<and> loads L (replace_char 0x27 0x22 s) = Inr v
        \<and> py_iter v = Inr []
        \<longrightarrow> process_admission_data L (CStr s) = Inr [])
   \<and> (s \<noteq> [] \<and> s \<noteq> ascii ''null''
        \<and> loads L (replace_char 0x27 0x22 s) = Inr (JList [JDict kvs])
        \<and> map_of kvs key_term = Some (JStr t) \<and> map_of kvs key_result = Some (JStr r)
        \<longrightarrow> (\<exists>a b c. process_admission_data L (CStr s) = Inr (a @ t @ b @ r @ c)))"
proof (intro conjI impI)
  assume "\<forall>e. loads L (replace_char 0x27 0x22 s) = Inl e
          \<longrightarrow> e = JSONDecodeError \<or> e = TypeError \<or> e = AttributeError"
  then show "\<exists>t. process_admission_data L (CStr s) = Inr t"
    by (rule process_admission_data_returns)
next
  assume "s = [] \<or> s = ascii ''null''"
  then show "process_admission_data L (CStr s) = Inr no_cases_text"
    by (auto simp: process_admission_data_def)
next
  assume a: "s \<noteq> [] \<and> s \<noteq> ascii ''null'' \<and> loads L (replace_char 0x27 0x22 s) = Inl e
        \<and> (e = JSONDecodeError \<or> e = TypeError \<or> e = AttributeError)"
  then have "narrative L s = Inl e" by (simp add: narrative_def)
  with a show "process_admission_data L (CStr s) = Inr (fallback_label @ s)"
    using fallback_when_raises by blast
next
  assume a: "s \<noteq> [] \<and> s \<noteq> ascii ''null'' \<and> loads L (replace_char 0x27 0x22 s) = Inr v
        \<and> (v = JNull \<or> (\<exists>b. v = JBool b) \<or> (\<exists>i. v = JInt i) \<or> (\<exists>x. v = JFloat x))"
  then have "narrative L s = Inl TypeError"
    by (auto simp: narrative_def py_iter_def)
  with a show "process_admission_data L (CStr s) = Inr (fallback_label @ s)"
    using fallback_when_raises by blast
next
  assume a: "s \<noteq> [] \<and> s \<noteq> ascii ''null'' \<and> loads L (replace_char 0x27 0x22 s) = Inr v
        \<and> py_iter v = Inr items \<and> c \<in> set items \<and> (\<forall>kvs. c \<noteq> JDict kvs)"
  then have "collect_cases L items = Inl AttributeError"
    using collect_cases_not_mapping by blast
  with a have "narrative L s = Inl AttributeError"
    by (simp add: narrative_def)
  with a show "process_admission_data L (CStr s) = Inr (fallback_label @ s)"
    using fallback_when_raises by blast
next
  assume "s \<noteq> [] \<and> s \<noteq> ascii ''null'' \<and> loads L (replace_char 0x27 0x22 s) = Inr v
        \<and> py_iter v = Inr []"
  then show "process_admission_data L (CStr s) = Inr []"
    by (simp add: process_admission_data_def narrative_def)
next
  assume "s \<noteq> [] \<and> s \<noteq> ascii ''null''
        \<and> loads L (replace_char 0x27 0x22 s) = Inr (JList [JDict kvs])
        \<and> map_of kvs key_term = Some (JStr t) \<and> map_of kvs key_result = Some (JStr r)"
  then show "\<exists>a b c. process_admission_data L (CStr s) = Inr (a @ t @ b @ r @ c)"
    using single_case_contains by blast
qed

text \<open>
  The reader on the two concrete histories used below: the one-case list, and the text
  \<open>{}\<close>.
\<close>

lemma loads_one_case:
  "json_loads 990 4300 (replace_char 0x27 0x22 one_case_text)
     = Inr (JList [JDict [(key_term, JStr (ascii ''25Fall'')), (key_result, JStr (ascii ''AD''))]])"
  by (simp add: one_case_text_def key_term_def key_result_def replace_char_def
        json_loads_def ascii_def json_ws_def prepend_def reader_step_def wants_value_def)

lemma loads_empty_dict: "json_loads 990 4300 (replace_char 0x27 0x22 (ascii ''{}'')) = Inr (JDict [])"
  by (simp add: replace_char_def json_loads_def ascii_def json_ws_def reader_step_def
        wants_value_def)

theorem admission_history_fallback_witness:
  "one_case_text \<noteq> [] \<and> one_case_text \<noteq> ascii ''null''
   \<and> loads cpython_latin1 (replace_char 0x27 0x22 one_case_text)
       = Inr (JList [JDict [(key_term, JStr (ascii ''25Fall'')), (key_result, JStr (ascii ''AD''))]])
   \<and> (\<forall>e. loads cpython_latin1 (replace_char 0x27 0x22 one_case_text) \<noteq> Inl e)
   \<and> (\<exists>t. process_admission_data cpython_latin1 (CStr one_case_text) = Inr t)
   \<and> (\<exists>a b c. process_admission_data cpython_latin1 (CStr one_case_text)
         = Inr (a @ ascii ''25Fall'' @ b @ ascii ''AD'' @ c))"
proof -
  have 1: "one_case_text \<noteq> []" and 2: "one_case_text \<noteq> ascii ''null''"
    by (simp_all add: one_case_text_def ascii_def)
  have 3: "loads cpython_latin1 (replace_char 0x27 0x22 one_case_text)
       = Inr (JList [JDict [(key_term, JStr (ascii ''25Fall'')), (key_result, JStr (ascii ''AD''))]])"
    by (simp add: cpython_latin1_def loads_one_case)
  have 4: "map_of [(key_term, JStr (ascii ''25Fall'')), (key_result, JStr (ascii ''AD''))] key_term
      = Some (JStr (ascii ''25Fall''))"
    and 5: "map_of [(key_term, JStr (ascii ''25Fall'')), (key_result, JStr (ascii ''AD''))] key_result
      = Some (JStr (ascii ''AD''))"
    by (simp_all add: key_term_def key_result_def)
  have 6: "\<forall>e. loads cpython_latin1 (replace_char 0x27 0x22 one_case_text) \<noteq> Inl e"
    using 3 by simp
  from admission_history_fallback[where L = cpython_latin1 and s = one_case_text
      and kvs = "[(key_term, JStr (ascii ''25Fall'')), (key_result, JStr (ascii ''AD''))]"
      and t = "ascii ''25Fall''" and r = "ascii ''AD''"] 1 2 3 4 5 6
  show ?thesis by blast
qed

text \<open>
  The claim as first stated fails on the text \<open>{}\<close>: it is no list of cases, yet nothing
  is raised, no case is rendered, and the result is the empty string, not the labelled
  raw value.
\<close>

theorem empty_mapping_is_not_fallback:
  "process_admission_data cpython_latin1 (CStr (ascii ''{}'')) = Inr []
   \<and> process_admission_data cpython_latin1 (CStr (ascii ''{}''))
       \<noteq> Inr (fallback_label @ ascii ''{}'')"
proof -
  have "narrative cpython_latin1 (ascii ''{}'') = Inr []"
    by (simp add: narrative_def cpython_latin1_def loads_empty_dict py_iter_def)
  moreover have "ascii ''{}'' \<noteq> []" "ascii ''{}'' \<noteq> ascii ''null''"
    by (simp_all add: ascii_def)
  ultimately show ?thesis
    by (simp add: process_admission_data_def fallback_label_def)
qed

subsection \<open>The limits of the reader\<close>

text \<open>
  A text of \<open>n\<close> opening brackets, \<open>n\<close> above the depth allowed, raises \<open>RecursionError\<close>,
  and a text of \<open>n\<close> digits \<open>1\<close>, \<open>n\<close> above the digits allowed, raises
  \<open>DigitLimitError\<close>. Neither is caught by \<open>process_admission_data\<close>.
\<close>

lemma tokenize_brackets: "tokenize max_digits (replicate n 0x5B) = replicate n TLBrack"
  by (induction n) (simp_all add: json_ws_def)

lemma parse_brackets:
  "wants_value ex \<Longrightarrow> length st \<le> max_depth \<Longrightarrow> max_depth < length st + n
   \<Longrightarrow> parse_tokens max_depth ex st (replicate n TLBrack) = Inl RecursionError"
proof (induction n arbitrary: ex st)
  case 0
  then show ?case by simp
next
  case (Suc n)
  show ?case
  proof (cases "length st = max_depth")
    case True
    with Suc.prems(1) show ?thesis by (simp add: reader_step_def)
  next
    case False
    then have lt: "length st < max_depth" using Suc.prems(2) by simp
    have step: "reader_step max_depth ex st TLBrack = Inr (WantValueOrEnd, InList [] # st)"
      using Suc.prems(1) lt by (auto simp: reader_step_def wants_value_def)
    have "parse_tokens max_depth WantValueOrEnd (InList [] # st) (replicate n TLBrack)
        = Inl RecursionError"
      using lt Suc.prems(3) by (intro Suc.IH) (simp_all add: wants_value_def)
    with step show ?thesis by simp
  qed
qed

lemma json_loads_deep:
  "max_depth < n \<Longrightarrow> json_loads max_depth max_digits (replicate n 0x5B) = Inl RecursionError"
  by (simp add: json_loads_def tokenize_brackets parse_brackets wants_value_def)

lemma json_loads_long:
  assumes "max_digits < n"
  shows "json_loads max_depth max_digits (replicate n 0x31) = Inl DigitLimitError"
proof -
  from assms obtain k where n: "n = Suc k" by (cases n) auto
  have d: "ascii_digit 0x31" by (simp add: ascii_digit_def)
  have tw: "takeWhile ascii_digit (replicate k 0x31) = replicate k 0x31"
    and dw: "dropWhile ascii_digit (replicate k 0x31) = []"
    using d by (simp_all add: takeWhile_eq_all_conv dropWhile_eq_Nil_conv)
  have num: "scan_number max_digits (0x31 # replicate k 0x31) = Some (TDigits, [])"
    using assms n d tw dw
    by (simp add: scan_number_def scan_fraction_def scan_exponent_def Let_def)
  have "tokenize max_digits (0x31 # replicate k 0x31) = [TDigits]"
    using num by (simp add: json_ws_def ascii_def)
  then show ?thesis
    by (simp add: json_loads_def n reader_step_def wants_value_def)
qed

lemma replace_char_replicate:
  "c \<noteq> old \<Longrightarrow> replace_char old new (replicate n c) = replicate n c"
  by (simp add: replace_char_def)

lemma deep_history_raises:
  "process_admission_data cpython_latin1 (CStr (replicate 1000 0x5B)) = Inl RecursionError"
proof -
  have ne: "replicate 1000 (0x5B :: nat) \<noteq> []" by simp
  have nn: "replicate 1000 (0x5B :: nat) \<noteq> ascii ''null''"
  proof
    assume "replicate 1000 (0x5B :: nat) = ascii ''null''"
    then have "length (replicate 1000 (0x5B :: nat)) = length (ascii ''null'')" by simp
    then show False by (simp add: ascii_def)
  qed
  have l: "loads cpython_latin1 (replace_char 0x27 0x22 (replicate 1000 0x5B)) = Inl RecursionError"
    by (simp add: cpython_latin1_def replace_char_replicate json_loads_deep)
  from process_admission_data_propagates[OF ne nn l] show ?thesis by simp
qed

lemma long_number_history_raises:
  "process_admission_data cpython_latin1 (CStr (replicate 4301 0x31)) = Inl DigitLimitError"
proof -
  have ne: "replicate 4301 (0x31 :: nat) \<noteq> []" by simp
  have nn: "replicate 4301 (0x31 :: nat) \<noteq> ascii ''null''"
  proof
    assume "replicate 4301 (0x31 :: nat) = ascii ''null''"
    then have "length (replicate 4301 (0x31 :: nat)) = length (ascii ''null'')" by simp
    then show False by (simp add: ascii_def)
  qed
  have l: "loads cpython_latin1 (replace_char 0x27 0x22 (replicate 4301 0x31)) = Inl DigitLimitError"
    by (simp add: cpython_latin1_def replace_char_replicate json_loads_long)
  from process_admission_data_propagates[OF ne nn l] show ?thesis by simp
qed

subsection \<open>The concrete table\<close>

text \<open>A table of blank rows loads without an exception.\<close>

lemma count_of_blank: "count_of L (CStr []) = Inr 0"
  by (simp add: count_of_def py_isdigit_def)

lemma blank_rows_load:
  "\<exists>d m i. process_rows L n (replicate k blank_row) = Inr (d, m, i)"
proof (induction k arbitrary: n)
  case 0
  then show ?case by simp
next
  case (Suc k)
  have t: "process_admission_data L (admission_data blank_row) = Inr no_cases_text"
    by (simp add: blank_row_def process_admission_data_blank)
  obtain d m i where r: "process_rows L (Suc n) (replicate k blank_row) = Inr (d, m, i)"
    using Suc by blast
  have c: "count_of L (admission_data_count blank_row) = Inr 0"
    by (simp add: blank_row_def count_of_blank)
  show ?case
    using t r c by (simp add: create_document_text_def make_metadata_def)
qed

lemma twelve_dataset:
  "load_and_process_data cpython_latin1 twelve_rows
     = Inr (twelve_documents, twelve_metadatas, twelve_ids)"
proof -
  obtain d m i where "load_and_process_data cpython_latin1 twelve_rows = Inr (d, m, i)"
    unfolding load_and_process_data_def twelve_rows_def using blank_rows_load by blast
  then show ?thesis
    by (simp add: twelve_documents_def twelve_metadatas_def twelve_ids_def)
qed

lemma length_twelve_rows: "length twelve_rows = 12"
  by (simp add: twelve_rows_def)

theorem batch_fail_fast_witness:
  "load_and_process_data cpython_latin1 twelve_rows
     = Inr (twelve_documents, twelve_metadatas, twelve_ids)
   \<and> delete_fault (add_fails_at 2 (BackendError [])) = None
   \<and> create_fault (add_fails_at 2 (BackendError [])) = None
   \<and> add_fault (add_fails_at 2 (BackendError [])) 1 = None
   \<and> add_fault (add_fails_at 2 (BackendError [])) 2 = Some (BackendError [])
   \<and> (\<exists>es pre adds post.
        store (snd (create_collection (add_fails_at 2 (BackendError []))
                 twelve_documents twelve_metadatas twelve_ids True fresh_db))
          (collection_name fresh_db) = Some es
      \<and> es = take 10 (zip3 twelve_ids twelve_documents twelve_metadatas)
      \<and> length es = 10
      \<and> ascii ''program_'' @ str_nat 10 \<notin> set (map entry_id es)
      \<and> ascii ''program_'' @ str_nat 11 \<notin> set (map entry_id es)
      \<and> calls (snd (create_collection (add_fails_at 2 (BackendError []))
                 twelve_documents twelve_metadatas twelve_ids True fresh_db))
          = calls fresh_db @ pre @ adds @ post
      \<and> list_all (\<lambda>c. \<not> is_Add c) pre \<and> length adds = 2
      \<and> list_all (\<lambda>c. \<not> is_Add c) post)"
proof -
  let ?F = "add_fails_at 2 (BackendError [])"
  have f: "delete_fault ?F = None" "create_fault ?F = None"
    "\<forall>j. 0 < j \<and> j < 2 \<longrightarrow> add_fault ?F j = None"
    "add_fault ?F 2 = Some (BackendError [])" "add_fault ?F 1 = None"
    by (simp_all add: add_fails_at_def sound_backend_def)
  have k: "(0::nat) < 2" "(2 - 1) * batch_size < length twelve_rows"
    by (simp_all add: batch_size_def length_twelve_rows)
  from batch_fail_fast[OF twelve_dataset f(1,2,3,4) k, of fresh_db]
  obtain es pre adds post where
    "store (snd (create_collection ?F twelve_documents twelve_metadatas twelve_ids True fresh_db))
          (collection_name fresh_db) = Some es"
    "es = take ((2 - 1) * batch_size) (zip3 twelve_ids twelve_documents twelve_metadatas)"
    "length es = (2 - 1) * batch_size"
    "\<forall>j. (2 - 1) * batch_size \<le> j \<and> j < length twelve_rows
           \<longrightarrow> ascii ''program_'' @ str_nat j \<notin> set (map entry_id es)"
    "calls (snd (create_collection ?F twelve_documents twelve_metadatas twelve_ids True fresh_db))
          = calls fresh_db @ pre @ adds @ post"
    "list_all (\<lambda>c. \<not> is_Add c) pre" "length adds = 2" "list_all (\<lambda>c. \<not> is_Add c) post"
    by blast
  then show ?thesis
    using twelve_dataset f
    by (simp add: batch_size_def length_twelve_rows) blast
qed

subsection \<open>Queries\<close>

text \<open>
  Claim C9 (query before a collection is open). With no collection open,
  \<open>query_programs\<close> raises the not-initialized error whatever the backend would do, and
  leaves the object as it was: in particular no call on the store is recorded.
\<close>

theorem query_programs_not_initialized:
  "collection s = None \<Longrightarrow> query_programs F query_text n_results flt s = (Inl NotInitialized, s)"
  by (simp add: query_programs_def)

theorem query_programs_not_initialized_witness:
  "collection fresh_db = None
   \<and> query_programs sound_backend (ascii ''short programs'') 5 None fresh_db
       = (Inl NotInitialized, fresh_db)
   \<and> calls fresh_db = []"
proof -
  have c: "collection fresh_db = None" by (simp add: fresh_db_def)
  from query_programs_not_initialized[OF c, of sound_backend "ascii ''short programs''" 5 None] c
  show ?thesis by (simp add: fresh_db_def)
qed

text \<open>
  Claim C3 (query-time failures), as the code has it. With a collection open, a search
  that raises an \<open>Exception\<close> does not reach the caller of \<open>query_programs\<close>: the failure
  is printed and the empty dictionary is returned. A search that succeeds is returned as
  the store gave it. So the failure differs from a successful result whenever that
  result is a dictionary that is not empty.
\<close>

theorem query_failure_is_caught:
  assumes "collection s = Some name" and "store s name = Some es"
  shows "(search F query_text n_results flt es = Inl e \<and> is_Exception e
            \<longrightarrow> query_programs F query_text n_results flt s
                 = (Inr [], say (QueryFailed e) (called (Query query_text n_results flt) s)))
       \<and> (search F query_text n_results flt es = Inr results
            \<longrightarrow> query_programs F query_text n_results flt s
                 = (Inr results, called (Query query_text n_results flt) s))
       \<and> (search F query_text n_results flt es = Inl e \<and> is_Exception e
            \<and> search G query_text n_results flt es = Inr results \<and> results \<noteq> []
            \<longrightarrow> fst (query_programs F query_text n_results flt s)
                 \<noteq> fst (query_programs G query_text n_results flt s))"
  using assms by (auto simp: query_programs_def called_def say_def Let_def)

theorem query_failure_is_caught_witness:
  "collection open_db = Some (ascii ''cs_programs_default'')
   \<and> store open_db (ascii ''cs_programs_default'') = Some []
   \<and> search (search_fails (BackendError [])) (ascii ''short programs'') 5 None []
       = Inl (BackendError [])
   \<and> is_Exception (BackendError [])
   \<and> search sound_backend (ascii ''short programs'') 5 None [] = Inr [(''documents'', [[]])]
   \<and> query_programs (search_fails (BackendError [])) (ascii ''short programs'') 5 None open_db
       = (Inr [], say (QueryFailed (BackendError []))
                    (called (Query (ascii ''short programs'') 5 None) open_db))
   \<and> query_programs sound_backend (ascii ''short programs'') 5 None open_db
       = (Inr [(''documents'', [[]])], called (Query (ascii ''short programs'') 5 None) open_db)
   \<and> fst (query_programs (search_fails (BackendError [])) (ascii ''short programs'') 5 None open_db)
       \<noteq> fst (query_programs sound_backend (ascii ''short programs'') 5 None open_db)"
proof -
  have 1: "collection open_db = Some (ascii ''cs_programs_default'')"
    and 2: "store open_db (ascii ''cs_programs_default'') = Some []"
    by (simp_all add: open_db_def)
  have 3: "search (search_fails (BackendError [])) (ascii ''short programs'') 5 None []
       = Inl (BackendError [])"
    and 4: "search sound_backend (ascii ''short programs'') 5 None [] = Inr [(''documents'', [[]])]"
    by (simp_all add: search_fails_def sound_backend_def)
  from query_failure_is_caught[OF 1 2, of "search_fails (BackendError [])"
      "ascii ''short programs''" 5 None "BackendError []" "[(''documents'', [[]])]" sound_backend]
    query_failure_is_caught[OF 1 2, of sound_backend
      "ascii ''short programs''" 5 None "BackendError []" "[(''documents'', [[]])]" sound_backend]
    1 2 3 4
  show ?thesis by simp
qed

text \<open>
  The claim as first stated fails on a backend whose search raises: the caller of
  \<open>query_programs\<close> gets a value, the empty dictionary, and no exception.
\<close>

theorem query_failure_not_propagated:
  "fst (query_programs (search_fails (BackendError [])) (ascii ''short programs'') 5 None open_db)
     = Inr []
   \<and> fst (query_programs (search_fails (BackendError [])) (ascii ''short programs'') 5 None open_db)
     \<noteq> Inl (BackendError [])"
  by (simp add: query_programs_def open_db_def search_fails_def sound_backend_def
        called_def say_def Let_def)

subsection \<open>The delete step\<close>

text \<open>Every step of a build only adds to the record of calls.\<close>

lemma add_batches_calls:
  "\<exists>cs. calls (snd (add_batches F d m i tot xs s)) = calls s @ cs"
proof (induction xs arbitrary: s)
  case Nil
  then show ?case by simp
next
  case (Cons x xs)
  let ?r = "collection_add F (x div batch_size + 1) (slice d x (x + batch_size))
              (slice m x (x + batch_size)) (slice i x (x + batch_size)) s"
  have "\<exists>cs0. calls (snd ?r) = calls s @ cs0"
    by (simp add: collection_add_def called_def Let_def split: option.splits)
  then obtain cs0 where c0: "calls (snd ?r) = calls s @ cs0" by blast
  show ?case
  proof (cases "fst ?r")
    case None
    from Cons[of "say (BatchAdded (x div batch_size + 1) tot) (snd ?r)"]
    obtain cs where "calls (snd (add_batches F d m i tot xs
           (say (BatchAdded (x div batch_size + 1) tot) (snd ?r))))
        = calls (say (BatchAdded (x div batch_size + 1) tot) (snd ?r)) @ cs"
      by blast
    with None c0 show ?thesis
      by (cases ?r) (simp add: Let_def say_def)
  next
    case (Some e)
    with c0 show ?thesis
      by (cases ?r) (simp add: Let_def say_def)
  qed
qed

lemma create_collection_keep_calls:
  "\<exists>cs. calls (snd (create_collection F d m i False s))
     = calls s @ CreateCollection (collection_name s) # cs"
proof (cases "fst (client_create_collection F (collection_name s) s)")
  case (Some e)
  then show ?thesis
    by (auto simp: create_collection_def client_create_collection_def called_def Let_def
          split: option.splits)
next
  case None
  let ?tot = "(length d + batch_size - 1) div batch_size"
  define s3 where "s3 = say (Plan ?tot batch_size) (say (Created (collection_name s))
      ((called (CreateCollection (collection_name s)) s)
        \<lparr>store := (store s)(collection_name s \<mapsto> []), collection := Some (collection_name s)\<rparr>))"
  have cc: "create_collection F d m i False s =
        (case add_batches F d m i ?tot (range_step (length d) batch_size) s3 of
           (Some e, s4) \<Rightarrow> (Inl e, s4)
         | (None, s4) \<Rightarrow>
             (case collection_count F s4 of
                (Inl e, s5) \<Rightarrow> (Inl e, s5)
              | (Inr n, s5) \<Rightarrow> (Inr None, say (Done n) s5)))"
    using None
    by (auto simp: create_collection_def client_create_collection_def called_def say_def Let_def
          s3_def split: option.splits)
  obtain cs where cs: "calls (snd (add_batches F d m i ?tot (range_step (length d) batch_size) s3))
      = calls s3 @ cs"
    using add_batches_calls by blast
  obtain r4 s4 where a: "add_batches F d m i ?tot (range_step (length d) batch_size) s3 = (r4, s4)"
    by (cases "add_batches F d m i ?tot (range_step (length d) batch_size) s3")
  obtain cs' where cs': "calls (snd (collection_count F s4)) = calls s4 @ cs'"
    using collection_count_frame[of F s4] by blast
  have s3c: "calls s3 = calls s @ [CreateCollection (collection_name s)]"
    by (simp add: s3_def say_def called_def)
  show ?thesis
  proof (cases r4)
    case (Some e)
    with cc a cs s3c show ?thesis by simp
  next
    case None
    with cc a cs cs' s3c show ?thesis
      by (cases "collection_count F s4") (auto simp: say_def split: sum.splits)
  qed
qed

text \<open>
  Whatever the backend does, the batch loop leaves in the open collection what it held
  before followed by the items of the first \<open>k\<close> batches, for some \<open>k\<close>, and touches no
  other collection.
\<close>

lemma add_batches_prefix:
  assumes "collection s = Some name" and "store s name = Some es"
  shows "\<exists>k. store (snd (add_batches F d m i tot xs s))
             = (store s)(name \<mapsto> es @ concat (map (\<lambda>x. slice (zip3 i d m) x (x + batch_size)) (take k xs)))
           \<and> collection (snd (add_batches F d m i tot xs s)) = Some name"
  using assms
proof (induction xs arbitrary: s es)
  case Nil
  have "(store s)(name \<mapsto> es) = store s" using Nil by (simp add: fun_upd_idem)
  with Nil show ?case by simp
next
  case (Cons x xs)
  let ?items = "zip3 i d m"
  let ?c = "Add (slice d x (x + batch_size)) (slice m x (x + batch_size)) (slice i x (x + batch_size))"
  show ?case
  proof (cases "add_fault F (x div batch_size + 1)")
    case (Some e)
    have "store (snd (add_batches F d m i tot (x # xs) s)) = store s
        \<and> collection (snd (add_batches F d m i tot (x # xs) s)) = Some name"
      using Cons.prems Some by (simp add: collection_add_def called_def say_def Let_def)
    moreover have "(store s)(name \<mapsto> es) = store s"
      using Cons.prems by (simp add: fun_upd_idem)
    ultimately show ?thesis
      by (intro exI[of _ 0]) simp
  next
    case None
    define s1 where "s1 = say (BatchAdded (x div batch_size + 1) tot)
        ((called ?c s)\<lparr>store := (store s)(name \<mapsto> es @ slice ?items x (x + batch_size))\<rparr>)"
    have step: "add_batches F d m i tot (x # xs) s = add_batches F d m i tot xs s1"
      using Cons.prems None
      by (simp add: collection_add_def called_def say_def Let_def s1_def zip3_slice)
    have s1c: "collection s1 = Some name"
      and s1s: "store s1 name = Some (es @ slice ?items x (x + batch_size))"
      using Cons.prems by (simp_all add: s1_def say_def called_def)
    from Cons.IH[OF s1c s1s] obtain k where
      k: "store (snd (add_batches F d m i tot xs s1))
            = (store s1)(name \<mapsto> (es @ slice ?items x (x + batch_size))
                 @ concat (map (\<lambda>x. slice ?items x (x + batch_size)) (take k xs)))"
        "collection (snd (add_batches F d m i tot xs s1)) = Some name"
      by blast
    have "store s1 = (store s)(name \<mapsto> es @ slice ?items x (x + batch_size))"
      by (simp add: s1_def say_def called_def)
    with k step show ?thesis
      by (intro exI[of _ "Suc k"]) simp
  qed
qed

text \<open>
  A build that does not recreate, on a store that has no collection of the name and whose
  create call does not fail: the collection exists afterwards, it is the open one, and it
  holds the items of the first \<open>k\<close> batches of this build, for some \<open>k\<close>.
\<close>

lemma create_collection_fresh:
  assumes "store s (collection_name s) = None" and "create_fault F = None"
  shows "\<exists>k. store (snd (create_collection F d m i False s))
             = (store s)(collection_name s \<mapsto>
                  concat (map (\<lambda>x. slice (zip3 i d m) x (x + batch_size))
                            (take k (range_step (length d) batch_size))))
           \<and> collection (snd (create_collection F d m i False s)) = Some (collection_name s)"
proof -
  let ?n = "collection_name s"
  let ?tot = "(length d + batch_size - 1) div batch_size"
  define s3 where "s3 = say (Plan ?tot batch_size) (say (Created ?n)
      ((called (CreateCollection ?n) s)
        \<lparr>store := (store s)(?n \<mapsto> []), collection := Some ?n\<rparr>))"
  have cc: "create_collection F d m i False s =
        (case add_batches F d m i ?tot (range_step (length d) batch_size) s3 of
           (Some e, s4) \<Rightarrow> (Inl e, s4)
         | (None, s4) \<Rightarrow>
             (case collection_count F s4 of
                (Inl e, s5) \<Rightarrow> (Inl e, s5)
              | (Inr n, s5) \<Rightarrow> (Inr None, say (Done n) s5)))"
    using assms
    by (simp add: create_collection_def client_create_collection_def called_def say_def Let_def
          s3_def)
  have s3c: "collection s3 = Some ?n" and s3s: "store s3 ?n = Some []"
    and s3m: "store s3 = (store s)(?n \<mapsto> [])"
    by (simp_all add: s3_def say_def called_def)
  let ?r = "add_batches F d m i ?tot (range_step (length d) batch_size) s3"
  from add_batches_prefix[OF s3c s3s, of F d m i ?tot "range_step (length d) batch_size"]
  obtain k where k: "store (snd ?r)
        = (store s)(?n \<mapsto> concat (map (\<lambda>x. slice (zip3 i d m) x (x + batch_size))
                                  (take k (range_step (length d) batch_size))))"
      "collection (snd ?r) = Some ?n"
    using s3m by auto
  have cnt: "store (snd (collection_count F (snd ?r))) = store (snd ?r)
      \<and> collection (snd (collection_count F (snd ?r))) = collection (snd ?r)"
    by (auto simp: collection_count_def called_def Let_def split: option.splits)
  have "store (snd (create_collection F d m i False s)) = store (snd ?r)
      \<and> collection (snd (create_collection F d m i False s)) = collection (snd ?r)"
  proof (cases ?r)
    case (Pair r4 s4)
    show ?thesis
    proof (cases r4)
      case (Some e)
      with Pair cc show ?thesis by simp
    next
      case None
      with Pair cc cnt show ?thesis
        by (cases "collection_count F s4") (auto simp: say_def split: sum.splits)
    qed
  qed
  with k show ?thesis by (intro exI[of _ k]) simp
qed

text \<open>
  Claim C10 (the delete step of a rebuild), as the code has it. Whatever exception the
  delete call raises, for an absent collection or for any other reason, it is suppressed:
  the build goes on exactly as a build without the delete step would from the state the
  failed call left, one line printed, and the next call it makes is the creation of the
  collection. When the store has no collection of the name and the create call does not
  fail for a reason of its own, the collection exists afterwards, is the open one, and
  holds the items of the first batches of this build and nothing else. When the
  collection is still in the store, the create call raises because the name is taken, and
  that exception ends the build: nothing is created and nothing is added.
\<close>

theorem delete_failure_is_suppressed:
  assumes "fst (client_delete_collection F (collection_name s) s) = Some e"
  shows "create_collection F documents metadatas ids True s
           = create_collection F documents metadatas ids False
               (say (NotExisting (collection_name s))
                  (called (DeleteCollection (collection_name s)) s))
       \<and> (\<exists>cs. calls (snd (create_collection F documents metadatas ids True s))
             = calls s @ DeleteCollection (collection_name s)
                 # CreateCollection (collection_name s) # cs)
       \<and> (store s (collection_name s) = None \<and> create_fault F = None
            \<longrightarrow> (\<exists>k. store (snd (create_collection F documents metadatas ids True s))
                        = (store s)(collection_name s \<mapsto>
                             concat (map (\<lambda>x. slice (zip3 ids documents metadatas) x (x + batch_size))
                                       (take k (range_step (length documents) batch_size))))
                      \<and> collection (snd (create_collection F documents metadatas ids True s))
                          = Some (collection_name s)))
       \<and> (store s (collection_name s) \<noteq> None \<and> create_fault F = None
            \<longrightarrow> create_collection F documents metadatas ids True s
                  = (Inl (CollectionExists (collection_name s)),
                     called (CreateCollection (collection_name s))
                       (say (NotExisting (collection_name s))
                          (called (DeleteCollection (collection_name s)) s))))"
proof -
  let ?n = "collection_name s"
  let ?s1 = "say (NotExisting ?n) (called (DeleteCollection ?n) s)"
  have n: "collection_name ?s1 = ?n" and st: "store ?s1 = store s"
    by (simp_all add: say_def called_def)
  have eq: "create_collection F documents metadatas ids True s
           = create_collection F documents metadatas ids False ?s1"
    using assms
    by (auto simp: create_collection_def client_delete_collection_def called_def say_def Let_def
          split: option.splits)
  obtain cs where "calls (snd (create_collection F documents metadatas ids False ?s1))
     = calls ?s1 @ CreateCollection (collection_name ?s1) # cs"
    using create_collection_keep_calls by blast
  then have c: "calls (snd (create_collection F documents metadatas ids True s))
     = calls s @ DeleteCollection ?n # CreateCollection ?n # cs"
    using eq by (simp add: say_def called_def)
  have fresh: "\<exists>k. store (snd (create_collection F documents metadatas ids True s))
                        = (store s)(?n \<mapsto>
                             concat (map (\<lambda>x. slice (zip3 ids documents metadatas) x (x + batch_size))
                                       (take k (range_step (length documents) batch_size))))
                      \<and> collection (snd (create_collection F documents metadatas ids True s))
                          = Some ?n"
    if "store s ?n = None \<and> create_fault F = None"
  proof -
    have "store ?s1 (collection_name ?s1) = None" using that n st by simp
    from create_collection_fresh[where s = "?s1" and F = F and d = documents and m = metadatas
        and i = ids, OF this] that
    show ?thesis using eq n st by simp
  qed
  have taken: "create_collection F documents metadatas ids True s
                  = (Inl (CollectionExists ?n), called (CreateCollection ?n) ?s1)"
    if "store s ?n \<noteq> None \<and> create_fault F = None"
    using that eq
    by (auto simp: create_collection_def client_create_collection_def called_def say_def Let_def)
  from eq c fresh taken show ?thesis by blast
qed

theorem delete_failure_is_suppressed_witness:
  "fst (client_delete_collection (delete_fails Interrupt) (collection_name fresh_db) fresh_db)
     = Some Interrupt
   \<and> store fresh_db (collection_name fresh_db) = None
   \<and> create_fault (delete_fails Interrupt) = None
   \<and> (\<exists>cs. calls (snd (create_collection (delete_fails Interrupt)
                twelve_documents twelve_metadatas twelve_ids True fresh_db))
         = DeleteCollection (collection_name fresh_db)
             # CreateCollection (collection_name fresh_db) # cs)
   \<and> (\<exists>k. store (snd (create_collection (delete_fails Interrupt)
                twelve_documents twelve_metadatas twelve_ids True fresh_db))
            = (store fresh_db)(collection_name fresh_db \<mapsto>
                 concat (map (\<lambda>x. slice (zip3 twelve_ids twelve_documents twelve_metadatas) x (x + batch_size))
                           (take k (range_step (length twelve_documents) batch_size))))
          \<and> collection (snd (create_collection (delete_fails Interrupt)
                twelve_documents twelve_metadatas twelve_ids True fresh_db))
              = Some (collection_name fresh_db))
   \<and> fst (client_delete_collection (delete_fails (BackendError [])) (collection_name open_db) open_db)
     = Some (BackendError [])
   \<and> store open_db (collection_name open_db) \<noteq> None
   \<and> create_fault (delete_fails (BackendError [])) = None
   \<and> create_collection (delete_fails (BackendError []))
         twelve_documents twelve_metadatas twelve_ids True open_db
       = (Inl (CollectionExists (collection_name open_db)),
          called (CreateCollection (collection_name open_db))
            (say (NotExisting (collection_name open_db))
               (called (DeleteCollection (collection_name open_db)) open_db)))"
proof -
  have 1: "fst (client_delete_collection (delete_fails Interrupt) (collection_name fresh_db) fresh_db)
     = Some Interrupt"
    and 2: "fst (client_delete_collection (delete_fails (BackendError []))
                   (collection_name open_db) open_db) = Some (BackendError [])"
    by (simp_all add: client_delete_collection_def delete_fails_def sound_backend_def
          fresh_db_def open_db_def called_def Let_def)
  have 3: "store fresh_db (collection_name fresh_db) = None"
    and 4: "store open_db (collection_name open_db) \<noteq> None"
    by (simp_all add: fresh_db_def open_db_def)
  have 5: "create_fault (delete_fails Interrupt) = None"
    and 6: "create_fault (delete_fails (BackendError [])) = None"
    by (simp_all add: delete_fails_def sound_backend_def)
  have c: "calls fresh_db = []" by (simp add: fresh_db_def)
  note a = delete_failure_is_suppressed[OF 1, of twelve_documents twelve_metadatas twelve_ids]
  note b = delete_failure_is_suppressed[OF 2, of twelve_documents twelve_metadatas twelve_ids]
  from a obtain cs where "calls (snd (create_collection (delete_fails Interrupt)
                twelve_documents twelve_metadatas twelve_ids True fresh_db))
         = calls fresh_db @ DeleteCollection (collection_name fresh_db)
             # CreateCollection (collection_name fresh_db) # cs"
    by blast
  with c have a1: "\<exists>cs. calls (snd (create_collection (delete_fails Interrupt)
                twelve_documents twelve_metadatas twelve_ids True fresh_db))
         = DeleteCollection (collection_name fresh_db)
             # CreateCollection (collection_name fresh_db) # cs"
    by simp
  from a 3 5 have a2: "\<exists>k. store (snd (create_collection (delete_fails Interrupt)
                twelve_documents twelve_metadatas twelve_ids True fresh_db))
            = (store fresh_db)(collection_name fresh_db \<mapsto>
                 concat (map (\<lambda>x. slice (zip3 twelve_ids twelve_documents twelve_metadatas) x (x + batch_size))
                           (take k (range_step (length twelve_documents) batch_size))))
          \<and> collection (snd (create_collection (delete_fails Interrupt)
                twelve_documents twelve_metadatas twelve_ids True fresh_db))
              = Some (collection_name fresh_db)"
    by blast
  from b 4 6 have b1: "create_collection (delete_fails (BackendError []))
         twelve_documents twelve_metadatas twelve_ids True open_db
       = (Inl (CollectionExists (collection_name open_db)),
          called (CreateCollection (collection_name open_db))
            (say (NotExisting (collection_name open_db))
               (called (DeleteCollection (collection_name open_db)) open_db)))"
    by blast
  from 1 2 3 4 5 6 a1 a2 b1 show ?thesis by blast
qed

text \<open>
  The claim as first stated fails when the delete raises and the collection is still
  there: the exception of the delete is suppressed, but the create call that follows
  finds the name taken and raises, so the rebuild fails, no fresh collection is created
  and nothing is added.
\<close>

theorem delete_failure_fails_rebuild:
  "fst (create_collection (delete_fails (BackendError []))
          twelve_documents twelve_metadatas twelve_ids True open_db)
     = Inl (CollectionExists (ascii ''cs_programs_default''))
   \<and> calls (snd (create_collection (delete_fails (BackendError []))
          twelve_documents twelve_metadatas twelve_ids True open_db))
     = [DeleteCollection (ascii ''cs_programs_default''),
        CreateCollection (ascii ''cs_programs_default'')]
   \<and> store (snd (create_collection (delete_fails (BackendError []))
          twelve_documents twelve_metadatas twelve_ids True open_db))
     = store open_db"
  by (simp add: create_collection_def client_delete_collection_def client_create_collection_def
        delete_fails_def sound_backend_def open_db_def called_def say_def Let_def)

subsection \<open>What the build reports\<close>

lemma create_collection_returns_none:
  "create_collection F d m i rc s = (Inr r, s') \<Longrightarrow> r = None"
  by (auto simp: create_collection_def Let_def split: prod.splits option.splits sum.splits if_splits)

text \<open>
  Claim C4 (what a build reports), as the code has it. When batch \<open>k\<close> is the first whose
  \<open>add\<close> raises, and it raises an \<open>Exception\<close>, the build returns \<open>None\<close>; the last two
  lines it prints are the failure of batch \<open>k\<close> and the closing line with the count of
  the collection, \<open>(k - 1) * 10\<close>. Whenever a build returns at all, it returns \<open>None\<close>.
\<close>

theorem build_prints_progress:
  assumes "load_and_process_data L rows = Inr (documents, metadatas, ids)"
    and "delete_fault F = None" and "create_fault F = None"
    and "\<forall>j. 0 < j \<and> j < k \<longrightarrow> add_fault F j = None"
    and "add_fault F k = Some e" and "is_Exception e" and "count_fault F = None"
    and "0 < k" and "(k - 1) * batch_size < length rows"
  shows "(\<exists>s' evs.
            create_collection F documents metadatas ids True s = (Inr None, s')
          \<and> printed s' = printed s @ evs @ [BatchFailed k e, Done ((k - 1) * batch_size)])
       \<and> (\<forall>G ds ms js rc t r t'. create_collection G ds ms js rc t = (Inr r, t') \<longrightarrow> r = None)"
proof (intro conjI allI impI)
  note sh = dataset_shape[OF assms(1)]
  have lt: "(k - 1) * batch_size < length documents" using assms(9) sh(1) by simp
  have len: "length (take ((k - 1) * batch_size) (zip3 ids documents metadatas))
      = (k - 1) * batch_size"
    using sh(7) assms(9) by simp
  from build_reports_failure[OF assms(2-8) lt, of metadatas ids s] len
  show "\<exists>s' evs.
            create_collection F documents metadatas ids True s = (Inr None, s')
          \<and> printed s' = printed s @ evs @ [BatchFailed k e, Done ((k - 1) * batch_size)]"
    by simp
next
  fix G :: "'b faults" and ds ms js rc t r t'
  assume "create_collection G ds ms js rc t = (Inr r, t')"
  then show "r = None" by (rule create_collection_returns_none)
qed

lemma add_fails_at_2:
  "delete_fault (add_fails_at 2 (BackendError [])) = None"
  "create_fault (add_fails_at 2 (BackendError [])) = None"
  "\<forall>j. 0 < j \<and> j < 2 \<longrightarrow> add_fault (add_fails_at 2 (BackendError [])) j = None"
  "add_fault (add_fails_at 2 (BackendError [])) 2 = Some (BackendError [])"
  "count_fault (add_fails_at 2 (BackendError [])) = None"
  "add_fault (add_fails_at 2 (BackendError [])) 1 = None"
  by (simp_all add: add_fails_at_def sound_backend_def)

theorem build_prints_progress_witness:
  "load_and_process_data cpython_latin1 twelve_rows
     = Inr (twelve_documents, twelve_metadatas, twelve_ids)
   \<and> add_fault (add_fails_at 2 (BackendError [])) 1 = None
   \<and> add_fault (add_fails_at 2 (BackendError [])) 2 = Some (BackendError [])
   \<and> is_Exception (BackendError [])
   \<and> (\<exists>s' evs.
        create_collection (add_fails_at 2 (BackendError []))
            twelve_documents twelve_metadatas twelve_ids True fresh_db = (Inr None, s')
      \<and> printed s' = evs @ [BatchFailed 2 (BackendError []), Done 10])"
proof -
  have k: "(0::nat) < 2" "(2 - 1) * batch_size < length twelve_rows"
    by (simp_all add: batch_size_def length_twelve_rows)
  have e: "is_Exception (BackendError [])" by simp
  have p: "printed fresh_db = []" by (simp add: fresh_db_def)
  from build_prints_progress[OF twelve_dataset add_fails_at_2(1,2,3,4) e add_fails_at_2(5) k,
      of fresh_db]
  obtain s' evs where
    "create_collection (add_fails_at 2 (BackendError []))
            twelve_documents twelve_metadatas twelve_ids True fresh_db = (Inr None, s')"
    "printed s' = printed fresh_db @ evs @ [BatchFailed 2 (BackendError []), Done ((2 - 1) * batch_size)]"
    by blast
  then show ?thesis
    using twelve_dataset add_fails_at_2(4,6) p
    by (simp add: batch_size_def)
qed

text \<open>
  The claim as first stated fails on the twelve rows when the second batch raises: ten
  items are committed, and the value returned is \<open>None\<close>, not the pair of the count and
  the failing batch.
\<close>

theorem build_returns_no_statistics:
  "fst (create_collection (add_fails_at 2 (BackendError []))
          twelve_documents twelve_metadatas twelve_ids True fresh_db) = Inr None
   \<and> fst (create_collection (add_fails_at 2 (BackendError []))
          twelve_documents twelve_metadatas twelve_ids True fresh_db) \<noteq> Inr (Some (10, 2))
   \<and> store (snd (create_collection (add_fails_at 2 (BackendError []))
          twelve_documents twelve_metadatas twelve_ids True fresh_db)) (collection_name fresh_db)
       = Some (take 10 (zip3 twelve_ids twelve_documents twelve_metadatas))"
proof -
  note sh = dataset_shape[OF twelve_dataset]
  have lt: "(2 - 1) * batch_size < length twelve_documents"
    using sh(1) by (simp add: batch_size_def length_twelve_rows)
  have e: "is_Exception (BackendError [])" by simp
  from build_reports_failure[OF add_fails_at_2(1,2,3,4) e add_fails_at_2(5) _ lt,
      where m = twelve_metadatas and i = twelve_ids and s = fresh_db]
  obtain s' where r: "create_collection (add_fails_at 2 (BackendError []))
      twelve_documents twelve_metadatas twelve_ids True fresh_db = (Inr None, s')"
    by auto
  from build_first_failure[OF add_fails_at_2(1,2,3,4) _ lt,
      where m = twelve_metadatas and i = twelve_ids and s = fresh_db]
  have "store (snd (create_collection (add_fails_at 2 (BackendError []))
          twelve_documents twelve_metadatas twelve_ids True fresh_db)) (collection_name fresh_db)
       = Some (take ((2 - 1) * batch_size) (zip3 twelve_ids twelve_documents twelve_metadatas))"
    by auto
  with r show ?thesis by (simp add: batch_size_def)
qed

subsection \<open>Rebuilding\<close>

text \<open>
  Claim C5 (rebuild replaces). Building twice from the same data set, on a backend on
  which no call fails and whatever the store held before: after the first build and
  after the second the collection holds the same items, one per row, with no id twice;
  both builds close by printing that count.
\<close>

theorem rebuild_replaces:
  assumes "load_and_process_data L rows = Inr (documents, metadatas, ids)"
    and "delete_fault F1 = None" and "create_fault F1 = None"
    and "\<forall>j. add_fault F1 j = None" and "count_fault F1 = None"
    and "delete_fault F2 = None" and "create_fault F2 = None"
    and "\<forall>j. add_fault F2 j = None" and "count_fault F2 = None"
  shows "\<exists>s1 s2 evs1 evs2.
      create_collection F1 documents metadatas ids True s = (Inr None, s1)
    \<and> create_collection F2 documents metadatas ids True s1 = (Inr None, s2)
    \<and> store s1 (collection_name s) = Some (zip3 ids documents metadatas)
    \<and> store s2 (collection_name s) = Some (zip3 ids documents metadatas)
    \<and> length (zip3 ids documents metadatas) = length rows
    \<and> distinct (map entry_id (zip3 ids documents metadatas))
    \<and> printed s1 = printed s @ evs1 @ [Done (length rows)]
    \<and> printed s2 = printed s1 @ evs2 @ [Done (length rows)]"
proof -
  note sh = dataset_shape[OF assms(1)]
  have l: "length ids = length documents" "length metadatas = length documents"
    using sh(1,2,3) by simp_all
  from build_all_added[OF assms(2-5) l, of s]
  obtain s1 evs1 where 1: "create_collection F1 documents metadatas ids True s = (Inr None, s1)"
    "store s1 = (store s)(collection_name s \<mapsto> zip3 ids documents metadatas)"
    "collection_name s1 = collection_name s"
    "printed s1 = printed s @ evs1 @ [Done (length documents)]"
    by blast
  from build_all_added[OF assms(6-9) l, of s1]
  obtain s2 evs2 where 2: "create_collection F2 documents metadatas ids True s1 = (Inr None, s2)"
    "store s2 = (store s1)(collection_name s1 \<mapsto> zip3 ids documents metadatas)"
    "printed s2 = printed s1 @ evs2 @ [Done (length documents)]"
    by blast
  show ?thesis
    using 1 2 sh(1,5,6,7)
    by (intro exI[of _ s1] exI[of _ s2] exI[of _ evs1] exI[of _ evs2]) simp
qed

lemma sound_backend_faults:
  "delete_fault sound_backend = None" "create_fault sound_backend = None"
  "\<forall>j. add_fault sound_backend j = None" "count_fault sound_backend = None"
  by (simp_all add: sound_backend_def)

theorem rebuild_replaces_witness:
  "load_and_process_data cpython_latin1 twelve_rows
     = Inr (twelve_documents, twelve_metadatas, twelve_ids)
   \<and> delete_fault sound_backend = None \<and> create_fault sound_backend = None
   \<and> add_fault sound_backend 1 = None \<and> count_fault sound_backend = None
   \<and> (\<exists>s1 s2.
        create_collection sound_backend twelve_documents twelve_metadatas twelve_ids True fresh_db
          = (Inr None, s1)
      \<and> create_collection sound_backend twelve_documents twelve_metadatas twelve_ids True s1
          = (Inr None, s2)
      \<and> store s2 (collection_name fresh_db) = store s1 (collection_name fresh_db)
      \<and> store s2 (collection_name fresh_db)
          = Some (zip3 twelve_ids twelve_documents twelve_metadatas)
      \<and> length (zip3 twelve_ids twelve_documents twelve_metadatas) = 12
      \<and> distinct (map entry_id (zip3 twelve_ids twelve_documents twelve_metadatas)))"
proof -
  from rebuild_replaces[OF twelve_dataset sound_backend_faults sound_backend_faults, of fresh_db]
  obtain s1 s2 where
    "create_collection sound_backend twelve_documents twelve_metadatas twelve_ids True fresh_db
          = (Inr None, s1)"
    "create_collection sound_backend twelve_documents twelve_metadatas twelve_ids True s1
          = (Inr None, s2)"
    "store s1 (collection_name fresh_db) = Some (zip3 twelve_ids twelve_documents twelve_metadatas)"
    "store s2 (collection_name fresh_db) = Some (zip3 twelve_ids twelve_documents twelve_metadatas)"
    "length (zip3 twelve_ids twelve_documents twelve_metadatas) = length twelve_rows"
    "distinct (map entry_id (zip3 twelve_ids twelve_documents twelve_metadatas))"
    by blast
  then show ?thesis
    using twelve_dataset sound_backend_faults
    by (simp add: length_twelve_rows)
qed

subsection \<open>Metadata coercions\<close>

lemma py_strip_yes: "py_strip yes_text = yes_text"
  by (simp add: py_strip_def yes_text_def py_isspace_def)

text \<open>
  Claim C6 (boolean metadata), as the code has it. Each of the two flags of the metadata
  is true exactly when the source value, with the whitespace at both ends removed, is
  the sentinel. A value equal to the sentinel gives true; the empty string gives false.
\<close>

theorem boolean_flags_compare_stripped:
  "flag_of x = (py_strip (cell_str x) = yes_text)
   \<and> (cell_str x = yes_text \<longrightarrow> flag_of x)
   \<and> \<not> flag_of (CStr [])
   \<and> (make_metadata L r = Inr md \<longrightarrow>
        md_internship_required md = (py_strip (cell_str (internship_required r)) = yes_text)
      \<and> md_thesis_required md = (py_strip (cell_str (thesis_required r)) = yes_text))"
proof (intro conjI impI)
  show "flag_of x = (py_strip (cell_str x) = yes_text)" by (simp add: flag_of_def)
  show "flag_of x" if "cell_str x = yes_text" using that by (simp add: flag_of_def py_strip_yes)
  show "\<not> flag_of (CStr [])" by (simp add: flag_of_def py_strip_def yes_text_def)
  assume "make_metadata L r = Inr md"
  then have "md_internship_required md = flag_of (internship_required r)
      \<and> md_thesis_required md = flag_of (thesis_required r)"
    by (auto simp: make_metadata_def split: sum.splits)
  then show "md_internship_required md = (py_strip (cell_str (internship_required r)) = yes_text)"
    and "md_thesis_required md = (py_strip (cell_str (thesis_required r)) = yes_text)"
    by (simp_all add: flag_of_def)
qed

theorem boolean_flags_compare_stripped_witness:
  "cell_str (CStr yes_text) = yes_text \<and> flag_of (CStr yes_text)
   \<and> (\<exists>md. make_metadata cpython_latin1 (blank_row\<lparr>thesis_required := CStr yes_text\<rparr>) = Inr md
        \<and> \<not> md_internship_required md \<and> md_thesis_required md)"
proof -
  let ?r = "blank_row\<lparr>thesis_required := CStr yes_text\<rparr>"
  have c: "count_of cpython_latin1 (admission_data_count ?r) = Inr 0"
    by (simp add: blank_row_def count_of_blank)
  then obtain md where md: "make_metadata cpython_latin1 ?r = Inr md"
    by (simp add: make_metadata_def)
  have i: "py_strip (cell_str (internship_required ?r)) \<noteq> yes_text"
    by (simp add: blank_row_def py_strip_def yes_text_def)
  have t: "py_strip (cell_str (thesis_required ?r)) = yes_text"
    by (simp add: py_strip_yes)
  from boolean_flags_compare_stripped[of "CStr yes_text" cpython_latin1 ?r md] md i t
  show ?thesis by auto
qed

text \<open>
  The claim as first stated fails on the sentinel with a space before it: the value is
  not the sentinel, and the flag is true.
\<close>

theorem flag_true_for_padded_sentinel:
  "flag_of (CStr [0x20, 0x662F]) \<and> cell_str (CStr [0x20, 0x662F]) \<noteq> yes_text"
  by (simp add: flag_of_def py_strip_def yes_text_def py_isspace_def)

text \<open>
  Claim C7 (count metadata) fails on the code for a digit that is not a decimal digit.
  Superscript two (U+00B2) passes \<open>isdigit\<close> and is rejected by \<open>int\<close>, so for a row whose
  count field is that character the coercion raises \<open>ValueError\<close>, and with it
  \<open>load_and_process_data\<close>, instead of giving 0.
\<close>

theorem count_of_superscript_digit_raises:
  assumes "is_digit L 0xB2" and "decimal_value L 0xB2 = None"
  shows "py_isdigit L [0xB2]
       \<and> count_of L (CStr [0xB2]) = Inl (IntValueError [0xB2])
       \<and> load_and_process_data L [blank_row\<lparr>admission_data_count := CStr [0xB2]\<rparr>]
           = Inl (IntValueError [0xB2])"
proof -
  have d: "py_isdigit L [0xB2]" using assms(1) by (simp add: py_isdigit_def)
  have i: "py_int L [0xB2] = Inl (IntValueError [0xB2])"
    using assms(2) by (simp add: py_int_def int_space_def py_isspace_def Let_def)
  have c: "count_of L (CStr [0xB2]) = Inl (IntValueError [0xB2])"
    using d i by (simp add: count_of_def)
  have "process_admission_data L
      (admission_data (blank_row\<lparr>admission_data_count := CStr [0xB2]\<rparr>)) = Inr no_cases_text"
    by (simp add: blank_row_def process_admission_data_blank)
  then have "load_and_process_data L [blank_row\<lparr>admission_data_count := CStr [0xB2]\<rparr>]
           = Inl (IntValueError [0xB2])"
    using c by (simp add: load_and_process_data_def create_document_text_def make_metadata_def)
  with d c show ?thesis by simp
qed

theorem count_of_superscript_digit_raises_witness:
  "is_digit cpython_latin1 0xB2 \<and> decimal_value cpython_latin1 0xB2 = None
   \<and> count_of cpython_latin1 (CStr [0xB2]) = Inl (IntValueError [0xB2])
   \<and> load_and_process_data cpython_latin1 [blank_row\<lparr>admission_data_count := CStr [0xB2]\<rparr>]
       = Inl (IntValueError [0xB2])"
proof -
  have 1: "is_digit cpython_latin1 0xB2" and 2: "decimal_value cpython_latin1 0xB2 = None"
    by (simp_all add: cpython_latin1_def latin1_digit_def ascii_decimal_def ascii_digit_def)
  from count_of_superscript_digit_raises[OF 1 2] 1 2 show ?thesis by simp
qed

end
